theory Spec2Isabelle
  imports Main "HOL-Library.AList" "HOL-Library.Monad_Syntax"
begin

section \<open>Board rule engine (backend/src/engines/GameEngine.js)\<close>

text \<open>
  The board is the array of arrays the constructor builds: 6 rows of 7 cells, row 0 at
  the top. A cell holds one of the numbers \<open>EMPTY = 0\<close>, \<open>PLAYER1 = 1\<close>,
  \<open>PLAYER2 = 2\<close>. Row and column indices are JavaScript numbers and the scans of the
  source step them below zero, so coordinates are integers.
\<close>

type_synonym board = "nat list list"

abbreviation ROWS :: int where "ROWS \<equiv> 6"
abbreviation COLS :: int where "COLS \<equiv> 7"
abbreviation EMPTY :: nat where "EMPTY \<equiv> 0"
abbreviation PLAYER1 :: nat where "PLAYER1 \<equiv> 1"
abbreviation PLAYER2 :: nat where "PLAYER2 \<equiv> 2"

record move =
  row :: int
  col :: int
  player :: nat

record engine =
  board :: board
  currentPlayer :: nat
  moveHistory :: "move list"
  gameOver :: bool
  winner :: "nat option"
  isDraw :: bool

definition initializeBoard :: board where
  "initializeBoard = replicate (nat ROWS) (replicate (nat COLS) EMPTY)"

text \<open>The constructor (and \<open>reset\<close>, which assigns the same values).\<close>

definition newEngine :: engine where
  "newEngine = \<lparr>board = initializeBoard, currentPlayer = PLAYER1, moveHistory = [],
     gameOver = False, winner = None, isDraw = False\<rparr>"

text \<open>
  \<open>this.board[r][c]\<close>. An index outside a row array reads \<open>undefined\<close>, which is
  \<open>None\<close> here and differs from every mark. Every read of the source has its row index
  inside the six rows (the scans test it first); the row test below only keeps the
  function total.
\<close>

definition cellAt :: "board \<Rightarrow> int \<Rightarrow> int \<Rightarrow> nat option" where
  "cellAt b r c =
     (if 0 \<le> r \<and> r < int (length b) \<and> 0 \<le> c \<and> c < int (length (b ! nat r))
      then Some (b ! nat r ! nat c) else None)"

text \<open>\<open>this.board[r][c] = v\<close>, for a cell inside the board.\<close>

definition setCell :: "board \<Rightarrow> int \<Rightarrow> int \<Rightarrow> nat \<Rightarrow> board" where
  "setCell b r c v = b[nat r := (b ! nat r)[nat c := v]]"

text \<open>The shape the constructor establishes: 6 rows, each of 7 cells.\<close>

definition wf_board :: "board \<Rightarrow> bool" where
  "wf_board b = (length b = 6 \<and> list_all (\<lambda>r. length r = 7) b)"

text \<open>
  The two \<open>while\<close> loops of \<open>countConsecutive\<close> are one loop run with the step
  \<open>(dr, dc)\<close> and then with \<open>(-dr, -dc)\<close>. With a zero step the loop of the source
  never leaves a cell of the player's mark, so the loop is a partial function and not
  returning is the value \<open>None\<close>.
\<close>

partial_function (option) countLoop ::
  "board \<Rightarrow> nat \<Rightarrow> int \<Rightarrow> int \<Rightarrow> int \<Rightarrow> int \<Rightarrow> nat \<Rightarrow> nat option" where
  "countLoop b p r c dr dc count =
     (if r \<ge> 0 \<and> r < ROWS \<and> c \<ge> 0 \<and> c < COLS
      then (if cellAt b r c = Some p
            then countLoop b p (r + dr) (c + dc) dr dc (count + 1)
            else Some count)
      else Some count)"

definition countConsecutive ::
  "board \<Rightarrow> int \<Rightarrow> int \<Rightarrow> int \<Rightarrow> int \<Rightarrow> nat \<Rightarrow> nat option" where
  "countConsecutive b rw cl dr dc p =
     do {
       count1 \<leftarrow> countLoop b p (rw + dr) (cl + dc) dr dc 1;
       countLoop b p (rw - dr) (cl - dc) (- dr) (- dc) count1
     }"

definition checkWin :: "board \<Rightarrow> int \<Rightarrow> int \<Rightarrow> nat \<Rightarrow> bool option" where
  "checkWin b rw cl p =
     do {
       h \<leftarrow> countConsecutive b rw cl 0 1 p;
       if h \<ge> 4 then Some True else
       do {
         v \<leftarrow> countConsecutive b rw cl 1 0 p;
         if v \<ge> 4 then Some True else
         do {
           d1 \<leftarrow> countConsecutive b rw cl 1 1 p;
           if d1 \<ge> 4 then Some True else
           do {
             d2 \<leftarrow> countConsecutive b rw cl 1 (- 1) p;
             if d2 \<ge> 4 then Some True else Some False
           }
         }
       }
     }"

text \<open>\<open>isBoardFull\<close> and \<open>getValidMoves\<close>: the loops over \<open>col = 0 .. COLS - 1\<close>.\<close>

definition isBoardFull :: "board \<Rightarrow> bool" where
  "isBoardFull b = list_all (\<lambda>cl. cellAt b 0 cl \<noteq> Some EMPTY) [0 .. COLS - 1]"

definition getValidMoves :: "board \<Rightarrow> int list" where
  "getValidMoves b = filter (\<lambda>cl. cellAt b 0 cl = Some EMPTY) [0 .. COLS - 1]"

text \<open>
  The landing-row scan \<open>for (r = ROWS - 1; r >= 0; r--)\<close> shared by \<open>dropPiece\<close> and
  \<open>evaluateMove\<close>: \<open>findRow b cl n\<close> scans the rows \<open>n - 1\<close> down to \<open>0\<close> and is
  \<open>-1\<close> when none is empty.
\<close>

fun findRow :: "board \<Rightarrow> int \<Rightarrow> nat \<Rightarrow> int" where
  "findRow b cl 0 = - 1"
| "findRow b cl (Suc r) =
     (if cellAt b (int r) cl = Some EMPTY then int r else findRow b cl r)"

text \<open>
  The object \<open>dropPiece\<close> returns on success; a field the source leaves out is
  \<open>None\<close> (winner) or \<open>False\<close> (isDraw). A failure is the error string.
\<close>

record move_result =
  res_row :: int
  res_col :: int
  res_gameOver :: bool
  res_winner :: "nat option"
  res_isDraw :: bool

definition dropPiece :: "engine \<Rightarrow> int \<Rightarrow> ((string + move_result) \<times> engine) option" where
  "dropPiece e cl =
     (if cl < 0 \<or> cl \<ge> COLS then Some (Inl ''Invalid column'', e)
      else if cellAt (board e) 0 cl \<noteq> Some EMPTY then Some (Inl ''Column is full'', e)
      else
        let rw = findRow (board e) cl (nat ROWS);
            e1 = e\<lparr>board := setCell (board e) rw cl (currentPlayer e),
                   moveHistory := moveHistory e @ [\<lparr>row = rw, col = cl, player = currentPlayer e\<rparr>]\<rparr>
        in do {
          hasWon \<leftarrow> checkWin (board e1) rw cl (currentPlayer e1);
          if hasWon then
            Some (Inr \<lparr>res_row = rw, res_col = cl, res_gameOver = True,
                       res_winner = Some (currentPlayer e1), res_isDraw = False\<rparr>,
                  e1\<lparr>gameOver := True, winner := Some (currentPlayer e1)\<rparr>)
          else if isBoardFull (board e1) then
            Some (Inr \<lparr>res_row = rw, res_col = cl, res_gameOver = True,
                       res_winner = None, res_isDraw = True\<rparr>,
                  e1\<lparr>gameOver := True, isDraw := True\<rparr>)
          else
            Some (Inr \<lparr>res_row = rw, res_col = cl, res_gameOver = False,
                       res_winner = None, res_isDraw = False\<rparr>,
                  e1\<lparr>currentPlayer :=
                       (if currentPlayer e1 = PLAYER1 then PLAYER2 else PLAYER1)\<rparr>)
        })"

text \<open>
  \<open>countAdjacentPieces\<close>: the loop over the eight neighbour offsets, in the order of
  the source.
\<close>

definition directions :: "(int \<times> int) list" where
  "directions = [(0, 1), (0, - 1), (1, 0), (- 1, 0), (1, 1), (- 1, - 1), (1, - 1), (- 1, 1)]"

definition countAdjacentPieces :: "board \<Rightarrow> int \<Rightarrow> int \<Rightarrow> nat \<Rightarrow> nat" where
  "countAdjacentPieces b rw cl p =
     foldl (\<lambda>count (dr, dc).
        let nr = rw + dr; nc = cl + dc in
        if nr \<ge> 0 \<and> nr < ROWS \<and> nc \<ge> 0 \<and> nc < COLS
        then (if cellAt b nr nc = Some p then count + 1 else count)
        else count) 0 directions"

text \<open>
  \<open>evaluateMove\<close> writes the simulated piece into the real board and writes
  \<open>EMPTY\<close> back before it returns, so the model returns the engine next to the score.
\<close>

definition evaluateMove :: "engine \<Rightarrow> int \<Rightarrow> nat \<Rightarrow> (int \<times> engine) option" where
  "evaluateMove e cl p =
     (let rw = findRow (board e) cl (nat ROWS) in
      if rw = - 1 then Some (- 1000, e)
      else
        let e1 = e\<lparr>board := setCell (board e) rw cl p\<rparr> in
        do {
          won \<leftarrow> checkWin (board e1) rw cl p;
          if won then Some (10000, e1\<lparr>board := setCell (board e1) rw cl EMPTY\<rparr>)
          else
            let opponent = (if p = PLAYER1 then PLAYER2 else PLAYER1);
                e2 = e1\<lparr>board := setCell (board e1) rw cl opponent\<rparr>
            in do {
              blocks \<leftarrow> checkWin (board e2) rw cl opponent;
              if blocks then Some (8000, e2\<lparr>board := setCell (board e2) rw cl EMPTY\<rparr>)
              else
                let e3 = e2\<lparr>board := setCell (board e2) rw cl EMPTY\<rparr>;
                    centerDistance = \<bar>cl - 3\<bar>;
                    score = 0 + (3 - centerDistance) * 100;
                    score = score + int (countAdjacentPieces (board e3) rw cl p) * 50
                in Some (score, e3)
            }
        })"

section \<open>Opponent decision procedure (BotEngine.js)\<close>

text \<open>
  The first two loops of \<open>getBestMove\<close>: the first column of \<open>validMoves\<close> whose
  score for the given mark reaches 10000, if any.
\<close>

fun firstWinning :: "engine \<Rightarrow> nat \<Rightarrow> int list \<Rightarrow> (int option \<times> engine) option" where
  "firstWinning e p [] = Some (None, e)"
| "firstWinning e p (cl # cols) =
     do {
       (score, e') \<leftarrow> evaluateMove e cl p;
       if score \<ge> 10000 then Some (Some cl, e') else firstWinning e' p cols
     }"

text \<open>The third loop, carrying \<open>bestCol\<close> and \<open>bestScore\<close>.\<close>

fun bestLoop :: "engine \<Rightarrow> nat \<Rightarrow> int \<Rightarrow> int \<Rightarrow> int list \<Rightarrow> ((int \<times> int) \<times> engine) option" where
  "bestLoop e p bestCol bestScore [] = Some ((bestCol, bestScore), e)"
| "bestLoop e p bestCol bestScore (cl # cols) =
     do {
       (score, e') \<leftarrow> evaluateMove e cl p;
       if score > bestScore then bestLoop e' p cl score cols
       else bestLoop e' p bestCol bestScore cols
     }"

definition getBestMove :: "engine \<Rightarrow> (int \<times> engine) option" where
  "getBestMove e =
     (let validMoves = getValidMoves (board e);
          botPlayer = PLAYER2;
          opponent = PLAYER1 in
      case validMoves of
        [] \<Rightarrow> Some (- 1, e)
      | first # _ \<Rightarrow>
          do {
            (w, e1) \<leftarrow> firstWinning e botPlayer validMoves;
            case w of
              Some cl \<Rightarrow> Some (cl, e1)
            | None \<Rightarrow>
                do {
                  (bl, e2) \<leftarrow> firstWinning e1 opponent validMoves;
                  case bl of
                    Some cl \<Rightarrow> Some (cl, e2)
                  | None \<Rightarrow>
                      do {
                        (bestScore, e3) \<leftarrow> evaluateMove e2 first botPlayer;
                        (best, e4) \<leftarrow> bestLoop e3 botPlayer first bestScore validMoves;
                        Some (fst best, e4)
                      }
                }
          })"

section \<open>Matchmaking and connection lifecycle (backend/src/services/MatchmakingService.js)\<close>

text \<open>
  A participant object of a session. The bot's \<open>socketId\<close> is \<open>null\<close>;
  \<open>disconnectTime\<close> is \<open>null\<close> until \<open>markDisconnected\<close> sets it;
  \<open>reconnectTimeout\<close> is absent until then and holds a timer handle afterwards.
\<close>

record participant =
  socketId :: "string option"
  username :: string
  isBot :: bool
  connected :: bool
  disconnectTime :: "int option"
  reconnectTimeout :: "nat option"

text \<open>
  A session object. Its field \<open>winner\<close> is \<open>sessionWinner\<close> here (the engine has
  a field of that name too). \<open>botEngine\<close> holds no state of its own: it is a reference
  to the session's \<open>gameEngine\<close>, present exactly when \<open>isVsBot\<close>.
\<close>

record session =
  sessionId :: string
  player1 :: participant
  player2 :: participant
  isVsBot :: bool
  gameEngine :: engine
  startTime :: int
  endTime :: "int option"
  result :: "string option"
  sessionWinner :: "string option"
  createdAt :: int

text \<open>An entry of the wait queue (the socket handle itself is outside the model).\<close>

record waiting =
  w_socketId :: string
  w_username :: string
  gameMode :: string
  timestamp :: int

text \<open>
  The callbacks handed to \<open>setTimeout\<close>: the wait timer of \<open>joinQueue\<close> and the
  grace timer of \<open>markDisconnected\<close>.
\<close>

datatype timer_action = SpawnBot string | Forfeit string bool

text \<open>
  The service's three \<open>Map\<close>s, as association lists in insertion order (the order a
  JavaScript \<open>Map\<close> iterates in), and the pending timers of the event loop with their
  due times. \<open>Date.now()\<close> and the identifier \<open>generateSessionId\<close> draws are
  parameters \<open>now\<close> and \<open>newId\<close> of the operations.
\<close>

record matchmaker =
  waitingPlayers :: "(string \<times> waiting) list"
  activeSessions :: "(string \<times> session) list"
  matchmakingTimeouts :: "(string \<times> nat) list"
  timers :: "(nat \<times> int \<times> timer_action) list"
  nextTimer :: nat

definition newMatchmaker :: matchmaker where
  "newMatchmaker = \<lparr>waitingPlayers = [], activeSessions = [], matchmakingTimeouts = [],
     timers = [], nextTimer = 0\<rparr>"

definition setTimeout :: "timer_action \<Rightarrow> int \<Rightarrow> matchmaker \<Rightarrow> nat \<times> matchmaker" where
  "setTimeout act due m =
     (nextTimer m, m\<lparr>timers := timers m @ [(nextTimer m, due, act)], nextTimer := Suc (nextTimer m)\<rparr>)"

definition clearTimeout :: "nat \<Rightarrow> matchmaker \<Rightarrow> matchmaker" where
  "clearTimeout t m = m\<lparr>timers := AList.delete t (timers m)\<rparr>"

definition createSession ::
  "int \<Rightarrow> string \<Rightarrow> string \<Rightarrow> string \<Rightarrow> string \<Rightarrow> string \<Rightarrow> bool \<Rightarrow> matchmaker
     \<Rightarrow> session \<times> matchmaker" where
  "createSession now newId player1SocketId player1Username player2SocketId player2Username vsBot m =
     (let s = \<lparr>sessionId = newId,
                player1 = \<lparr>socketId = Some player1SocketId, username = player1Username,
                   isBot = False, connected = True, disconnectTime = None,
                   reconnectTimeout = None\<rparr>,
                player2 =
                  (if vsBot
                   then \<lparr>socketId = None, username = player2Username, isBot = True,
                          connected = True, disconnectTime = None, reconnectTimeout = None\<rparr>
                   else \<lparr>socketId = Some player2SocketId, username = player2Username,
                          isBot = False, connected = True, disconnectTime = None,
                          reconnectTimeout = None\<rparr>),
                isVsBot = vsBot, gameEngine = newEngine, startTime = now, endTime = None,
                result = None, sessionWinner = None, createdAt = now\<rparr>
      in (s, m\<lparr>activeSessions := AList.update newId s (activeSessions m)\<rparr>))"

definition spawnBotOpponent ::
  "int \<Rightarrow> string \<Rightarrow> string \<Rightarrow> matchmaker \<Rightarrow> session option \<times> matchmaker" where
  "spawnBotOpponent now newId playerSocketId m =
     (case map_of (waitingPlayers m) playerSocketId of
        None \<Rightarrow> (None, m)
      | Some waiter \<Rightarrow>
          let m1 = m\<lparr>waitingPlayers := AList.delete playerSocketId (waitingPlayers m)\<rparr>;
              m2 = (if map_of (matchmakingTimeouts m1) playerSocketId \<noteq> None
                    then m1\<lparr>matchmakingTimeouts :=
                              AList.delete playerSocketId (matchmakingTimeouts m1)\<rparr>
                    else m1);
              (s, m3) = createSession now newId playerSocketId (w_username waiter)
                          ''BOT'' ''ConnectBot'' True m2
          in (Some s, m3))"

text \<open>
  The loop of \<open>tryPairPlayers\<close> over the queue entries returns inside its first
  iteration whose key differs from \<open>socketId\<close>; \<open>firstOther\<close> is that entry.
\<close>

fun firstOther :: "string \<Rightarrow> (string \<times> waiting) list \<Rightarrow> (string \<times> waiting) option" where
  "firstOther sock [] = None"
| "firstOther sock ((otherId, otherPlayer) # rest) =
     (if otherId \<noteq> sock then Some (otherId, otherPlayer) else firstOther sock rest)"

text \<open>
  \<open>if (timeouts.has(id)) { clearTimeout(timeouts.get(id)); timeouts.delete(id) }\<close>
\<close>

definition cancelWaitTimer :: "string \<Rightarrow> matchmaker \<Rightarrow> matchmaker" where
  "cancelWaitTimer sock m =
     (case map_of (matchmakingTimeouts m) sock of
        None \<Rightarrow> m
      | Some t \<Rightarrow> (clearTimeout t m)\<lparr>matchmakingTimeouts :=
                     AList.delete sock (matchmakingTimeouts m)\<rparr>)"

text \<open>
  \<open>tryPairPlayers\<close> returns \<open>null\<close> or the pair of session id and opponent name.
  Reading \<open>currentPlayer.username\<close> throws when \<open>socketId\<close> has no queue entry of its
  own (after the deletions); \<open>joinQueue\<close> always makes the entry first.
\<close>

definition tryPairPlayers ::
  "int \<Rightarrow> string \<Rightarrow> string \<Rightarrow> matchmaker
     \<Rightarrow> (string + (string \<times> string) option) \<times> matchmaker" where
  "tryPairPlayers now newId sock m =
     (let thisPlayer = map_of (waitingPlayers m) sock in
      case firstOther sock (waitingPlayers m) of
        None \<Rightarrow> (Inr None, m)
      | Some (otherId, otherPlayer) \<Rightarrow>
          let m1 = m\<lparr>waitingPlayers :=
                       AList.delete otherId (AList.delete sock (waitingPlayers m))\<rparr>;
              m2 = cancelWaitTimer otherId m1;
              m3 = cancelWaitTimer sock m2
          in (case thisPlayer of
                None \<Rightarrow> (Inl ''TypeError'', m3)
              | Some waiter \<Rightarrow>
                  let (s, m4) = createSession now newId sock (w_username waiter)
                                  otherId (w_username otherPlayer) False m3
                  in (Inr (Some (sessionId s, w_username otherPlayer)), m4)))"

text \<open>
  The objects \<open>joinQueue\<close> returns: an error, a bot session, a pairing, or the plain
  \<open>{sessionId: null, paired: false, isVsBot: false}\<close> of a queued player.
  \<open>JoinThrew\<close> stands for an exception escaping the call.
\<close>

datatype join_result =
  JoinError string | JoinedBot string | JoinedPair string string | JoinQueued | JoinThrew

definition joinQueue ::
  "int \<Rightarrow> string \<Rightarrow> string \<Rightarrow> string \<Rightarrow> string \<Rightarrow> matchmaker \<Rightarrow> join_result \<times> matchmaker" where
  "joinQueue now newId sock user mode m =
     (if map_of (waitingPlayers m) sock \<noteq> None then (JoinError ''Already in queue'', m)
      else if list_ex (\<lambda>(k, s). username (player1 s) = user \<or> username (player2 s) = user)
                (activeSessions m)
      then (JoinError ''Username already in game'', m)
      else
        let m1 = m\<lparr>waitingPlayers :=
                     AList.update sock \<lparr>w_socketId = sock, w_username = user, gameMode = mode,
                                         timestamp = now\<rparr> (waitingPlayers m)\<rparr>
        in if mode = ''bot'' then
             (case spawnBotOpponent now newId sock m1 of
                (Some s, m2) \<Rightarrow> (JoinedBot (sessionId s), m2)
              | (None, m2) \<Rightarrow> (JoinThrew, m2))
           else
             (case tryPairPlayers now newId sock m1 of
                (Inr (Some (sid, opponent)), m2) \<Rightarrow> (JoinedPair sid opponent, m2)
              | (Inl err, m2) \<Rightarrow> (JoinThrew, m2)
              | (Inr None, m2) \<Rightarrow>
                  let (t, m3) = setTimeout (SpawnBot sock) (now + 10000) m2
                  in (JoinQueued,
                      m3\<lparr>matchmakingTimeouts := AList.update sock t (matchmakingTimeouts m3)\<rparr>)))"

text \<open>
  \<open>getSessionByPlayerId\<close>: the first session, in insertion order, one of whose
  participants has the socket id (with the key it is stored under).
\<close>

definition getSessionByPlayerId :: "string \<Rightarrow> matchmaker \<Rightarrow> (string \<times> session) option" where
  "getSessionByPlayerId sock m =
     find (\<lambda>(k, s). socketId (player1 s) = Some sock \<or> socketId (player2 s) = Some sock)
       (activeSessions m)"

definition markDisconnected :: "int \<Rightarrow> string \<Rightarrow> matchmaker \<Rightarrow> session option \<times> matchmaker" where
  "markDisconnected now sock m =
     (case getSessionByPlayerId sock m of
        None \<Rightarrow> (None, m)
      | Some (k, s) \<Rightarrow>
          let isPlayer1 = (socketId (player1 s) = Some sock);
              pl = (if isPlayer1 then player1 s else player2 s);
              pl = pl\<lparr>connected := False, disconnectTime := Some now\<rparr>;
              (t, m1) = setTimeout (Forfeit (sessionId s) isPlayer1) (now + 30000) m;
              pl = pl\<lparr>reconnectTimeout := Some t\<rparr>;
              s1 = (if isPlayer1 then s\<lparr>player1 := pl\<rparr> else s\<lparr>player2 := pl\<rparr>)
          in (Some s1, m1\<lparr>activeSessions := AList.update k s1 (activeSessions m1)\<rparr>))"

text \<open>
  \<open>Date.now() - player.disconnectTime\<close>: in the subtraction \<open>null\<close> converts to the
  number 0.
\<close>

definition toNumber :: "int option \<Rightarrow> int" where
  "toNumber v = (case v of None \<Rightarrow> 0 | Some n \<Rightarrow> n)"

definition reconnect ::
  "int \<Rightarrow> string \<Rightarrow> string \<Rightarrow> string \<Rightarrow> matchmaker \<Rightarrow> (string + session) \<times> matchmaker" where
  "reconnect now sock user sid m =
     (case map_of (activeSessions m) sid of
        None \<Rightarrow> (Inl ''Session not found'', m)
      | Some s \<Rightarrow>
          let isPlayer1 = (username (player1 s) = user);
              isPlayer2 = (username (player2 s) = user)
          in if \<not> isPlayer1 \<and> \<not> isPlayer2 then (Inl ''Username does not match session'', m)
             else
               let pl = (if isPlayer1 then player1 s else player2 s);
                   timeSinceDisconnect = now - toNumber (disconnectTime pl)
               in if timeSinceDisconnect > 30000
                  then (Inl ''Reconnection window expired (30 seconds)'', m)
                  else
                    let pl1 = pl\<lparr>socketId := Some sock, connected := True,
                                  disconnectTime := None\<rparr>;
                        (pl2, m1) = (case reconnectTimeout pl1 of
                                       None \<Rightarrow> (pl1, m)
                                     | Some t \<Rightarrow> (pl1\<lparr>reconnectTimeout := None\<rparr>,
                                                   clearTimeout t m));
                        s1 = (if isPlayer1 then s\<lparr>player1 := pl2\<rparr> else s\<lparr>player2 := pl2\<rparr>)
                    in (Inr s1, m1\<lparr>activeSessions := AList.update sid s1 (activeSessions m1)\<rparr>))"

text \<open>\<open>forfeitGame\<close> returns the session, or \<open>undefined\<close> when it does nothing.\<close>

definition forfeitGame :: "int \<Rightarrow> string \<Rightarrow> bool \<Rightarrow> matchmaker \<Rightarrow> session option \<times> matchmaker" where
  "forfeitGame now sid isPlayer1 m =
     (case map_of (activeSessions m) sid of
        None \<Rightarrow> (None, m)
      | Some s \<Rightarrow>
          if gameOver (gameEngine s) then (None, m)
          else
            let s1 = s\<lparr>gameEngine := (gameEngine s)\<lparr>gameOver := True\<rparr>,
                       endTime := Some now,
                       result := Some ''forfeit'',
                       sessionWinner := Some (if isPlayer1 then username (player2 s)
                                              else username (player1 s))\<rparr>
            in (Some s1, m\<lparr>activeSessions := AList.update sid s1 (activeSessions m)\<rparr>))"

text \<open>
  The event loop running a pending timer that is due: the timer leaves the pending set
  and its callback runs. A handle that is not pending (cleared, or already run) does
  nothing.
\<close>

definition fireTimer :: "int \<Rightarrow> string \<Rightarrow> nat \<Rightarrow> matchmaker \<Rightarrow> matchmaker" where
  "fireTimer now newId t m =
     (case map_of (timers m) t of
        None \<Rightarrow> m
      | Some (due, act) \<Rightarrow>
          if now < due then m
          else
            let m1 = m\<lparr>timers := AList.delete t (timers m)\<rparr>
            in (case act of
                  SpawnBot sock \<Rightarrow> snd (spawnBotOpponent now newId sock m1)
                | Forfeit sid isPlayer1 \<Rightarrow> snd (forfeitGame now sid isPlayer1 m1)))"

section \<open>Move submission (the \<open>onMakeMove\<close> socket handler)\<close>

text \<open>
  The handler up to its first \<open>await\<close>: the checks in the order of the source, each
  emitting an \<open>error\<close> message and returning, then the call of \<open>dropPiece\<close> on the
  session's engine. What follows the \<open>await\<close> (notifications, the session's result
  fields when the move was terminal, scheduling the bot's reply) rejects nothing.
\<close>

definition onMakeMove ::
  "string \<Rightarrow> string \<Rightarrow> int \<Rightarrow> matchmaker \<Rightarrow> ((string + move_result) \<times> matchmaker) option" where
  "onMakeMove sock sid column m =
     (case map_of (activeSessions m) sid of
        None \<Rightarrow> Some (Inl ''Game session not found'', m)
      | Some s \<Rightarrow>
          if column < 0 \<or> column \<ge> 7 then Some (Inl ''Invalid column'', m)
          else
            let isPlayer1 = (socketId (player1 s) = Some sock);
                isPlayer2 = (socketId (player2 s) = Some sock)
            in if \<not> isPlayer1 \<and> \<not> isPlayer2 then Some (Inl ''Not your game'', m)
               else
                 let playerNumber = (if isPlayer1 then PLAYER1 else PLAYER2)
                 in if currentPlayer (gameEngine s) \<noteq> playerNumber
                    then Some (Inl ''Not your turn'', m)
                    else do {
                      (moveResult, e1) \<leftarrow> dropPiece (gameEngine s) column;
                      let m1 = m\<lparr>activeSessions :=
                                   AList.update sid (s\<lparr>gameEngine := e1\<rparr>) (activeSessions m)\<rparr>;
                      Some (moveResult, m1)
                    })"

declare countLoop.simps [code]

section \<open>Auxiliary notions for the proofs\<close>

text \<open>Inside the grid.\<close>

definition inBoard :: "int \<Rightarrow> int \<Rightarrow> bool" where
  "inBoard r c = (0 \<le> r \<and> r < ROWS \<and> 0 \<le> c \<and> c < COLS)"

text \<open>
  \<open>run b p r c dr dc n\<close>: how many of the first \<open>n\<close> cells met from \<open>(r, c)\<close> in steps
  of \<open>(dr, dc)\<close> are inside the grid and hold \<open>p\<close>, stopping at the first that is not.
\<close>

fun run :: "board \<Rightarrow> nat \<Rightarrow> int \<Rightarrow> int \<Rightarrow> int \<Rightarrow> int \<Rightarrow> nat \<Rightarrow> nat" where
  "run b p r c dr dc 0 = 0"
| "run b p r c dr dc (Suc n) =
     (if inBoard r c \<and> cellAt b r c = Some p
      then Suc (run b p (r + dr) (c + dc) dr dc n) else 0)"

text \<open>
  The value \<open>countConsecutive\<close> returns for a non-zero step, and the disjunction
  \<open>checkWin\<close> tests, as total functions.
\<close>

definition lineCount :: "board \<Rightarrow> int \<Rightarrow> int \<Rightarrow> int \<Rightarrow> int \<Rightarrow> nat \<Rightarrow> nat" where
  "lineCount b rw cl dr dc p =
     1 + run b p (rw + dr) (cl + dc) dr dc 7 + run b p (rw - dr) (cl - dc) (- dr) (- dc) 7"

definition hasFour :: "board \<Rightarrow> int \<Rightarrow> int \<Rightarrow> nat \<Rightarrow> bool" where
  "hasFour b rw cl p =
     (lineCount b rw cl 0 1 p \<ge> 4 \<or> lineCount b rw cl 1 0 p \<ge> 4 \<or>
      lineCount b rw cl 1 1 p \<ge> 4 \<or> lineCount b rw cl 1 (- 1) p \<ge> 4)"

text \<open>
  What the specification asks of win detection, in its own words: along one of the four
  axes (horizontal, vertical, the two diagonals) there are four contiguous cells of the
  mark, all inside the grid, one of them the cell \<open>(rw, cl)\<close>. The four cells are
  those at the offsets \<open>j - k\<close> for \<open>j = 0..3\<close>, where \<open>k\<close> is the position of
  \<open>(rw, cl)\<close> among them.
\<close>

definition axes :: "(int \<times> int) list" where
  "axes = [(0, 1), (1, 0), (1, 1), (1, - 1)]"

definition holds :: "board \<Rightarrow> nat \<Rightarrow> int \<Rightarrow> int \<Rightarrow> bool" where
  "holds b p r c = (inBoard r c \<and> cellAt b r c = Some p)"

definition fourInLine :: "board \<Rightarrow> int \<Rightarrow> int \<Rightarrow> int \<Rightarrow> int \<Rightarrow> nat \<Rightarrow> bool" where
  "fourInLine b rw cl dr dc p =
     list_ex (\<lambda>k. list_all (\<lambda>j. holds b p (rw + (int j - int k) * dr) (cl + (int j - int k) * dc))
                [0 ..< 4]) [0 ..< 4]"

text \<open>A client submitting a sequence of columns, one \<open>dropPiece\<close> call each.\<close>

fun dropAll :: "engine \<Rightarrow> int list \<Rightarrow> ((string + move_result) list \<times> engine) option" where
  "dropAll e [] = Some ([], e)"
| "dropAll e (cl # cols) =
     do {
       (res, e1) \<leftarrow> dropPiece e cl;
       (rest, e2) \<leftarrow> dropAll e1 cols;
       Some (res # rest, e2)
     }"

text \<open>The score \<open>evaluateMove\<close> returns, as a total function of the board.\<close>

definition simScore :: "board \<Rightarrow> int \<Rightarrow> nat \<Rightarrow> int" where
  "simScore b cl p =
     (let rw = findRow b cl 6;
          opponent = (if p = PLAYER1 then PLAYER2 else PLAYER1) in
      if rw = - 1 then - 1000
      else if hasFour (setCell b rw cl p) rw cl p then 10000
      else if hasFour (setCell b rw cl opponent) rw cl opponent then 8000
      else (3 - \<bar>cl - 3\<bar>) * 100 + int (countAdjacentPieces b rw cl p) * 50)"

text \<open>
  The notions of the decision procedure's contract: a legal column is one in range whose
  top cell is empty; a placement wins immediately for a mark when \<open>checkWin\<close> is
  true at the landing cell once the mark is placed there.
\<close>

definition legalColumn :: "board \<Rightarrow> int \<Rightarrow> bool" where
  "legalColumn b cl = (0 \<le> cl \<and> cl < COLS \<and> cellAt b 0 cl = Some EMPTY)"

definition winningMove :: "board \<Rightarrow> int \<Rightarrow> nat \<Rightarrow> bool" where
  "winningMove b cl p =
     (let rw = findRow b cl 6 in checkWin (setCell b rw cl p) rw cl p = Some True)"

section \<open>Properties of the board rule engine\<close>

subsection \<open>Reading and writing cells\<close>

lemma wf_board_length: "wf_board b \<Longrightarrow> length b = 6"
  by (simp add: wf_board_def)

lemma wf_board_row: "wf_board b \<Longrightarrow> r < 6 \<Longrightarrow> length (b ! r) = 7"
  by (simp add: wf_board_def list_all_length)

lemma wf_initializeBoard: "wf_board initializeBoard"
  by (simp add: wf_board_def initializeBoard_def eval_nat_numeral)

lemma cellAt_wf:
  "wf_board b \<Longrightarrow> cellAt b r c =
     (if 0 \<le> r \<and> r < ROWS \<and> 0 \<le> c \<and> c < COLS then Some (b ! nat r ! nat c) else None)"
  by (auto simp: cellAt_def wf_board_length wf_board_row)

lemma wf_board_setCell: "wf_board b \<Longrightarrow> wf_board (setCell b r c v)"
  by (cases "nat r < length b")
     (auto simp: wf_board_def setCell_def list_all_length nth_list_update)

lemma cellAt_setCell:
  assumes "wf_board b" "0 \<le> r" "r < ROWS" "0 \<le> c" "c < COLS"
  shows "cellAt (setCell b r c v) r' c' =
           (if r' = r \<and> c' = c then Some v else cellAt b r' c')"
proof -
  have "wf_board (setCell b r c v)" using assms(1) by (rule wf_board_setCell)
  then show ?thesis using assms
    by (auto simp: cellAt_wf setCell_def nth_list_update wf_board_length wf_board_row)
qed

subsection \<open>The landing-row scan\<close>

lemma findRow_cases:
  "(findRow b cl n = - 1 \<and> (\<forall>r'. 0 \<le> r' \<and> r' < int n \<longrightarrow> cellAt b r' cl \<noteq> Some EMPTY)) \<or>
   (0 \<le> findRow b cl n \<and> findRow b cl n < int n \<and> cellAt b (findRow b cl n) cl = Some EMPTY \<and>
      (\<forall>r'. findRow b cl n < r' \<and> r' < int n \<longrightarrow> cellAt b r' cl \<noteq> Some EMPTY))"
proof (induction n)
  case 0
  show ?case by auto
next
  case (Suc n)
  show ?case
  proof (cases "cellAt b (int n) cl = Some EMPTY")
    case True
    then show ?thesis by auto
  next
    case False
    have *: "r' < 1 + int n \<Longrightarrow> cellAt b r' cl = Some EMPTY \<Longrightarrow> r' < int n" for r'
      using False by (cases "r' = int n") auto
    from Suc False show ?thesis
      by (auto dest: *)
  qed
qed

lemma findRow_found:
  assumes "cellAt b 0 cl = Some EMPTY"
  shows "0 \<le> findRow b cl 6 \<and> findRow b cl 6 < ROWS \<and>
         cellAt b (findRow b cl 6) cl = Some EMPTY \<and>
         (\<forall>r'. findRow b cl 6 < r' \<and> r' < ROWS \<longrightarrow> cellAt b r' cl \<noteq> Some EMPTY)"
  using findRow_cases[of b cl 6] assms by auto

subsection \<open>The counting loop returns\<close>

lemma countLoop_run:
  "\<not> inBoard (r + int n * dr) (c + int n * dc) \<Longrightarrow>
   countLoop b p r c dr dc k = Some (k + run b p r c dr dc n)"
proof (induction n arbitrary: r c k)
  case 0
  then show ?case by (subst countLoop.simps) (auto simp: inBoard_def)
next
  case (Suc n)
  have "\<not> inBoard ((r + dr) + int n * dr) ((c + dc) + int n * dc)"
    using Suc.prems by (simp add: algebra_simps)
  from Suc.IH[OF this] show ?case
    by (subst countLoop.simps) (simp add: inBoard_def)
qed

lemma countLoop_total:
  assumes "dr \<noteq> 0 \<or> dc \<noteq> 0"
  shows "countLoop b p r c dr dc k = Some (k + run b p r c dr dc 7)"
proof (cases "inBoard r c")
  case False
  then show ?thesis by (subst countLoop.simps) (auto simp: inBoard_def eval_nat_numeral)
next
  case True
  have "\<not> inBoard (r + int 7 * dr) (c + int 7 * dc)"
    using True assms unfolding inBoard_def by (cases "dr > 0"; cases "dc > 0") auto
  then show ?thesis by (rule countLoop_run)
qed

subsection \<open>Win detection\<close>

lemma countConsecutive_lineCount:
  "dr \<noteq> 0 \<or> dc \<noteq> 0 \<Longrightarrow> countConsecutive b rw cl dr dc p = Some (lineCount b rw cl dr dc p)"
  by (simp add: countConsecutive_def lineCount_def countLoop_total)

lemma checkWin_hasFour: "checkWin b rw cl p = Some (hasFour b rw cl p)"
  by (simp add: checkWin_def hasFour_def countConsecutive_lineCount)

lemma run_ge:
  "m \<le> run b p r c dr dc n \<longleftrightarrow>
     m \<le> n \<and> (\<forall>j<m. holds b p (r + int j * dr) (c + int j * dc))"
proof (induction n arbitrary: r c m)
  case 0
  then show ?case by auto
next
  case (Suc n)
  show ?case
  proof (cases m)
    case 0
    then show ?thesis by simp
  next
    case (Suc m')
    have "(\<forall>j<Suc m'. holds b p (r + int j * dr) (c + int j * dc)) \<longleftrightarrow>
          holds b p r c \<and> (\<forall>j<m'. holds b p ((r + dr) + int j * dr) ((c + dc) + int j * dc))"
      by (auto simp: All_less_Suc2 algebra_simps)
    then show ?thesis
      using Suc Suc.IH[of m' "r + dr" "c + dc"] by (auto simp: holds_def)
  qed
qed

lemma window_split:
  fixes P :: "int \<Rightarrow> bool"
  assumes "P 0"
  shows "(\<exists>k<4. (\<forall>i<k. P (- (int i + 1))) \<and> (\<forall>i<3 - k. P (int i + 1))) \<longleftrightarrow>
         (\<exists>k<4. \<forall>j<4. P (int j - int k))"
proof -
  have "(\<exists>k<4. (\<forall>i<k. P (- (int i + 1))) \<and> (\<forall>i<3 - k. P (int i + 1))) \<longleftrightarrow>
        (P 1 \<and> P 2 \<and> P 3) \<or> (P (- 1) \<and> P 1 \<and> P 2) \<or> (P (- 1) \<and> P (- 2) \<and> P 1) \<or>
        (P (- 1) \<and> P (- 2) \<and> P (- 3))"
    by (simp add: eval_nat_numeral less_Suc_eq all_conj_distrib ex_disj_distrib
          conj_disj_distribR)
  moreover have "(\<exists>k<4. \<forall>j<4. P (int j - int k)) \<longleftrightarrow>
        (P 1 \<and> P 2 \<and> P 3) \<or> (P (- 1) \<and> P 1 \<and> P 2) \<or> (P (- 1) \<and> P (- 2) \<and> P 1) \<or>
        (P (- 1) \<and> P (- 2) \<and> P (- 3))"
    using assms
    by (simp add: eval_nat_numeral less_Suc_eq all_conj_distrib ex_disj_distrib
          conj_disj_distribR) blast
  ultimately show ?thesis by simp
qed

lemma four_le_sum:
  "(4 \<le> 1 + (f::nat) + w) \<longleftrightarrow> (\<exists>k<4. k \<le> w \<and> 3 - k \<le> f)"
proof
  assume "4 \<le> 1 + f + w"
  then have "min w 3 < 4 \<and> min w 3 \<le> w \<and> 3 - min w 3 \<le> f" by auto
  then show "\<exists>k<4. k \<le> w \<and> 3 - k \<le> f" by blast
next
  assume "\<exists>k<4. k \<le> w \<and> 3 - k \<le> f"
  then show "4 \<le> 1 + f + w" by auto
qed

lemma lineCount_fourInLine:
  assumes "holds b p rw cl"
  shows "4 \<le> lineCount b rw cl dr dc p \<longleftrightarrow> fourInLine b rw cl dr dc p"
proof -
  let ?P = "\<lambda>d. holds b p (rw + d * dr) (cl + d * dc)"
  have P0: "?P 0" using assms by simp
  have "4 \<le> lineCount b rw cl dr dc p \<longleftrightarrow>
        (\<exists>k<4. k \<le> run b p (rw - dr) (cl - dc) (- dr) (- dc) 7 \<and>
                3 - k \<le> run b p (rw + dr) (cl + dc) dr dc 7)"
    unfolding lineCount_def by (rule four_le_sum)
  also have "\<dots> \<longleftrightarrow> (\<exists>k<4. (\<forall>i<k. ?P (- (int i + 1))) \<and> (\<forall>i<3 - k. ?P (int i + 1)))"
    by (auto simp: run_ge algebra_simps)
  also have "\<dots> \<longleftrightarrow> (\<exists>k<4. \<forall>j<4. ?P (int j - int k))"
    using P0 by (rule window_split)
  also have "\<dots> \<longleftrightarrow> fourInLine b rw cl dr dc p"
    by (simp add: fourInLine_def list_ex_iff list_all_iff Bex_def Ball_def)
  finally show ?thesis .
qed

lemma checkWin_fourInLine:
  assumes "inBoard rw cl" "cellAt b rw cl = Some p"
  shows "checkWin b rw cl p = Some (list_ex (\<lambda>(dr, dc). fourInLine b rw cl dr dc p) axes)"
proof -
  have "holds b p rw cl" using assms by (simp add: holds_def)
  then show ?thesis
    by (simp add: checkWin_hasFour hasFour_def lineCount_fourInLine axes_def)
qed

subsection \<open>Applying a move\<close>

text \<open>
  C1. On a 6 by 7 board, \<open>dropPiece\<close> returns for every integer column. It fails with
  \<open>Invalid column\<close> exactly when the column is outside \<open>[0, 7)\<close>, with
  \<open>Column is full\<close> exactly when the column is in range and its top cell is not
  empty, and in no other way; a failure leaves the whole engine (board, move history,
  current player, game-over flag) as it was. Otherwise the landing row \<open>r\<close> is the
  lowest empty cell of the column, that cell and no other changes and receives the
  current player's mark, exactly one move record \<open>(r, c, mark)\<close> is appended, and the
  result carries \<open>r\<close>, the column and the terminal flag (a win at the placed cell or a
  full board).
\<close>

theorem dropPiece_contract:
  assumes wf: "wf_board (board e)"
  shows "\<exists>res e'. dropPiece e c = Some (res, e') \<and>
      ((res = Inl ''Invalid column'') = (c < 0 \<or> COLS \<le> c)) \<and>
      ((res = Inl ''Column is full'') = (0 \<le> c \<and> c < COLS \<and> cellAt (board e) 0 c \<noteq> Some EMPTY)) \<and>
      (isl res = (res = Inl ''Invalid column'' \<or> res = Inl ''Column is full'')) \<and>
      (isl res \<longrightarrow> e' = e) \<and>
      (\<not> isl res \<longrightarrow>
         (\<exists>r. 0 \<le> r \<and> r < ROWS \<and> cellAt (board e) r c = Some EMPTY \<and>
              (\<forall>r'. r < r' \<and> r' < ROWS \<longrightarrow> cellAt (board e) r' c \<noteq> Some EMPTY) \<and>
              (\<forall>r' c'. cellAt (board e') r' c' =
                   (if r' = r \<and> c' = c then Some (currentPlayer e) else cellAt (board e) r' c')) \<and>
              moveHistory e' = moveHistory e @ [\<lparr>row = r, col = c, player = currentPlayer e\<rparr>] \<and>
              res_row (projr res) = r \<and> res_col (projr res) = c \<and>
              res_gameOver (projr res) =
                (checkWin (board e') r c (currentPlayer e) = Some True \<or> isBoardFull (board e'))))"
proof -
  consider (range) "c < 0 \<or> COLS \<le> c"
    | (full) "0 \<le> c" "c < COLS" "cellAt (board e) 0 c \<noteq> Some EMPTY"
    | (ok) "0 \<le> c" "c < COLS" "cellAt (board e) 0 c = Some EMPTY"
    by linarith
  then show ?thesis
  proof cases
    case range
    then show ?thesis by (auto simp: dropPiece_def)
  next
    case full
    then show ?thesis by (auto simp: dropPiece_def)
  next
    case ok
    define r where "r = findRow (board e) c 6"
    have fr: "0 \<le> r" "r < ROWS" "cellAt (board e) r c = Some EMPTY"
      "\<forall>r'. r < r' \<and> r' < ROWS \<longrightarrow> cellAt (board e) r' c \<noteq> Some EMPTY"
      using findRow_found[OF ok(3)] by (simp_all add: r_def)
    have cells: "cellAt (setCell (board e) r c v) r' c' =
        (if r' = r \<and> c' = c then Some v else cellAt (board e) r' c')" for v r' c'
      using wf fr(1,2) ok(1,2) by (rule cellAt_setCell)
    show ?thesis
      using ok fr cells
      by (auto simp: dropPiece_def Let_def checkWin_hasFour r_def[symmetric])
  qed
qed


theorem dropPiece_contract_witness:
  "wf_board (board newEngine) \<and>
   (\<exists>res e'. dropPiece newEngine 3 = Some (res, e') \<and> \<not> isl res \<and>
      moveHistory e' = [\<lparr>row = res_row (projr res), col = 3, player = PLAYER1\<rparr>])"
proof -
  have wf: "wf_board (board newEngine)"
    by (simp add: newEngine_def wf_initializeBoard)
  have top: "cellAt (board newEngine) 0 3 = Some EMPTY"
    by (simp add: cellAt_wf[OF wf]) (simp add: newEngine_def initializeBoard_def eval_nat_numeral)
  have start: "moveHistory newEngine = []" "currentPlayer newEngine = PLAYER1"
    by (simp_all add: newEngine_def)
  from dropPiece_contract[OF wf, of 3] obtain res e' where
    d: "dropPiece newEngine 3 = Some (res, e')" and
    b: "(res = Inl ''Column is full'') =
          ((0::int) \<le> 3 \<and> (3::int) < COLS \<and> cellAt (board newEngine) 0 3 \<noteq> Some EMPTY)" and
    a: "(res = Inl ''Invalid column'') = ((3::int) < 0 \<or> COLS \<le> 3)" and
    c: "isl res = (res = Inl ''Invalid column'' \<or> res = Inl ''Column is full'')" and
    k: "\<not> isl res \<longrightarrow>
         (\<exists>r. 0 \<le> r \<and> r < ROWS \<and> cellAt (board newEngine) r 3 = Some EMPTY \<and>
              (\<forall>r'. r < r' \<and> r' < ROWS \<longrightarrow> cellAt (board newEngine) r' 3 \<noteq> Some EMPTY) \<and>
              (\<forall>r' c'. cellAt (board e') r' c' =
                   (if r' = r \<and> c' = 3 then Some (currentPlayer newEngine)
                    else cellAt (board newEngine) r' c')) \<and>
              moveHistory e' =
                moveHistory newEngine @ [\<lparr>row = r, col = 3, player = currentPlayer newEngine\<rparr>] \<and>
              res_row (projr res) = r \<and> res_col (projr res) = 3 \<and>
              res_gameOver (projr res) =
                (checkWin (board e') r 3 (currentPlayer newEngine) = Some True \<or>
                 isBoardFull (board e')))"
    by (elim exE conjE)
  from a have na: "res \<noteq> Inl ''Invalid column''" by simp
  from b top have nb: "res \<noteq> Inl ''Column is full''" by simp
  from c na nb have ok: "\<not> isl res" by simp
  with k obtain r where
    "moveHistory e' = moveHistory newEngine @ [\<lparr>row = r, col = 3, player = currentPlayer newEngine\<rparr>]"
    "res_row (projr res) = r"
    by (elim impE exE conjE)
  with start have "moveHistory e' = [\<lparr>row = res_row (projr res), col = 3, player = PLAYER1\<rparr>]"
    by simp
  with d ok have "\<exists>res e'. dropPiece newEngine 3 = Some (res, e') \<and> \<not> isl res \<and>
      moveHistory e' = [\<lparr>row = res_row (projr res), col = 3, player = PLAYER1\<rparr>]"
    by (intro exI conjI)
  with wf show ?thesis by (rule conjI)
qed

subsection \<open>Win detection is four in a line through the placed cell\<close>

text \<open>
  C2. For every 6 by 7 board and every cell \<open>(rw, cl)\<close> of the grid that holds the mark
  \<open>p\<close>, \<open>checkWin\<close> returns, and returns true exactly when one of the four axes has
  four contiguous cells of \<open>p\<close> through \<open>(rw, cl)\<close>. And dropping into the columns
  0,1,0,1,0,1,0 from the initial engine ends the game on the seventh move and not
  before, with mark 1 the winner, its pieces in rows 5,4,3,2 of column 0, and the
  vertical axis the only one with four in a line.
\<close>

theorem checkWin_four_in_line:
  "(\<forall>b rw cl p. wf_board b \<and> inBoard rw cl \<and> cellAt b rw cl = Some p \<longrightarrow>
      checkWin b rw cl p = Some (list_ex (\<lambda>(dr, dc). fourInLine b rw cl dr dc p) axes)) \<and>
   (\<exists>results e. dropAll newEngine [0, 1, 0, 1, 0, 1, 0] = Some (results, e) \<and>
      map isl results = [False, False, False, False, False, False, False] \<and>
      map (\<lambda>res. res_gameOver (projr res)) results =
        [False, False, False, False, False, False, True] \<and>
      map (\<lambda>res. res_row (projr res)) results = [5, 5, 4, 4, 3, 3, 2] \<and>
      res_winner (projr (last results)) = Some PLAYER1 \<and>
      gameOver e \<and> winner e = Some PLAYER1 \<and> \<not> isDraw e \<and>
      map (\<lambda>r. cellAt (board e) r 0) [5, 4, 3, 2, 1, 0] =
        [Some PLAYER1, Some PLAYER1, Some PLAYER1, Some PLAYER1, Some EMPTY, Some EMPTY] \<and>
      map (\<lambda>(dr, dc). fourInLine (board e) 2 0 dr dc PLAYER1) axes = [False, True, False, False])"
proof (rule conjI)
  show "\<forall>b rw cl p. wf_board b \<and> inBoard rw cl \<and> cellAt b rw cl = Some p \<longrightarrow>
      checkWin b rw cl p = Some (list_ex (\<lambda>(dr, dc). fourInLine b rw cl dr dc p) axes)"
    by (simp add: checkWin_fourInLine)
next
  have play: "dropAll newEngine [0, 1, 0, 1, 0, 1, 0] = Some (
    [Inr \<lparr>res_row = 5, res_col = 0, res_gameOver = False, res_winner = None, res_isDraw = False\<rparr>,
     Inr \<lparr>res_row = 5, res_col = 1, res_gameOver = False, res_winner = None, res_isDraw = False\<rparr>,
     Inr \<lparr>res_row = 4, res_col = 0, res_gameOver = False, res_winner = None, res_isDraw = False\<rparr>,
     Inr \<lparr>res_row = 4, res_col = 1, res_gameOver = False, res_winner = None, res_isDraw = False\<rparr>,
     Inr \<lparr>res_row = 3, res_col = 0, res_gameOver = False, res_winner = None, res_isDraw = False\<rparr>,
     Inr \<lparr>res_row = 3, res_col = 1, res_gameOver = False, res_winner = None, res_isDraw = False\<rparr>,
     Inr \<lparr>res_row = 2, res_col = 0, res_gameOver = True, res_winner = Some PLAYER1,
          res_isDraw = False\<rparr>],
    \<lparr>board =
        [[0, 0, 0, 0, 0, 0, 0],
         [0, 0, 0, 0, 0, 0, 0],
         [1, 0, 0, 0, 0, 0, 0],
         [1, 2, 0, 0, 0, 0, 0],
         [1, 2, 0, 0, 0, 0, 0],
         [1, 2, 0, 0, 0, 0, 0]],
     currentPlayer = PLAYER1,
     moveHistory = [\<lparr>row = 5, col = 0, player = PLAYER1\<rparr>, \<lparr>row = 5, col = 1, player = PLAYER2\<rparr>,
       \<lparr>row = 4, col = 0, player = PLAYER1\<rparr>, \<lparr>row = 4, col = 1, player = PLAYER2\<rparr>,
       \<lparr>row = 3, col = 0, player = PLAYER1\<rparr>, \<lparr>row = 3, col = 1, player = PLAYER2\<rparr>,
       \<lparr>row = 2, col = 0, player = PLAYER1\<rparr>],
     gameOver = True, winner = Some PLAYER1, isDraw = False\<rparr>)"
    by code_simp
  have lines: "map (\<lambda>(dr, dc). fourInLine
        [[0, 0, 0, 0, 0, 0, 0],
         [0, 0, 0, 0, 0, 0, 0],
         [1, 0, 0, 0, 0, 0, 0],
         [1, 2, 0, 0, 0, 0, 0],
         [1, 2, 0, 0, 0, 0, 0],
         [1, 2, 0, 0, 0, 0, 0]] 2 0 dr dc PLAYER1) axes = [False, True, False, False]"
    by code_simp
  show "\<exists>results e. dropAll newEngine [0, 1, 0, 1, 0, 1, 0] = Some (results, e) \<and>
      map isl results = [False, False, False, False, False, False, False] \<and>
      map (\<lambda>res. res_gameOver (projr res)) results =
        [False, False, False, False, False, False, True] \<and>
      map (\<lambda>res. res_row (projr res)) results = [5, 5, 4, 4, 3, 3, 2] \<and>
      res_winner (projr (last results)) = Some PLAYER1 \<and>
      gameOver e \<and> winner e = Some PLAYER1 \<and> \<not> isDraw e \<and>
      map (\<lambda>r. cellAt (board e) r 0) [5, 4, 3, 2, 1, 0] =
        [Some PLAYER1, Some PLAYER1, Some PLAYER1, Some PLAYER1, Some EMPTY, Some EMPTY] \<and>
      map (\<lambda>(dr, dc). fourInLine (board e) 2 0 dr dc PLAYER1) axes = [False, True, False, False]"
    unfolding play using lines by (simp add: cellAt_def)
qed

theorem checkWin_four_in_line_witness:
  "wf_board [[0, 0, 0, 0, 0, 0, 0], [0, 0, 0, 0, 0, 0, 0], [1, 0, 0, 0, 0, 0, 0],
             [1, 2, 0, 0, 0, 0, 0], [1, 2, 0, 0, 0, 0, 0], [1, 2, 0, 0, 0, 0, 0]] \<and>
   inBoard 2 0 \<and>
   cellAt [[0, 0, 0, 0, 0, 0, 0], [0, 0, 0, 0, 0, 0, 0], [1, 0, 0, 0, 0, 0, 0],
           [1, 2, 0, 0, 0, 0, 0], [1, 2, 0, 0, 0, 0, 0], [1, 2, 0, 0, 0, 0, 0]] 2 0 = Some PLAYER1 \<and>
   checkWin [[0, 0, 0, 0, 0, 0, 0], [0, 0, 0, 0, 0, 0, 0], [1, 0, 0, 0, 0, 0, 0],
             [1, 2, 0, 0, 0, 0, 0], [1, 2, 0, 0, 0, 0, 0], [1, 2, 0, 0, 0, 0, 0]] 2 0 PLAYER1
     = Some True"
proof -
  let ?b = "[[0, 0, 0, 0, 0, 0, 0], [0, 0, 0, 0, 0, 0, 0], [1, 0, 0, 0, 0, 0, 0],
             [1, 2, 0, 0, 0, 0, 0], [1, 2, 0, 0, 0, 0, 0], [1, 2, 0, 0, 0, 0, 0::nat]]"
  have h: "wf_board ?b \<and> inBoard 2 0 \<and> cellAt ?b 2 0 = Some PLAYER1"
    by (simp add: wf_board_def inBoard_def cellAt_def)
  have f: "list_ex (\<lambda>(dr, dc). fourInLine ?b 2 0 dr dc PLAYER1) axes"
    by code_simp
  from checkWin_four_in_line h
  have "checkWin ?b 2 0 PLAYER1 = Some (list_ex (\<lambda>(dr, dc). fourInLine ?b 2 0 dr dc PLAYER1) axes)"
    by blast
  with h f show ?thesis by simp
qed

section \<open>Properties of move scoring and of the decision procedure\<close>

subsection \<open>Scoring restores the board\<close>

lemma setCell_setCell: "setCell (setCell b r c x) r c y = setCell b r c y"
  by (cases "nat r < length b") (simp_all add: setCell_def list_update_beyond)

lemma setCell_same:
  assumes "cellAt b r c = Some v"
  shows "setCell b r c v = b"
proof -
  from assms have "v = b ! nat r ! nat c"
    by (auto simp: cellAt_def split: if_splits)
  then show ?thesis by (simp add: setCell_def)
qed

lemma setCell_restore:
  "cellAt b r c = Some v \<Longrightarrow> setCell (setCell b r c x) r c v = b"
  by (simp add: setCell_setCell setCell_same)

lemma findRow_empty:
  "findRow b cl n \<noteq> - 1 \<Longrightarrow> cellAt b (findRow b cl n) cl = Some EMPTY"
  using findRow_cases[of b cl n] by auto

lemma evaluateMove_simScore:
  "evaluateMove e cl p = Some (simScore (board e) cl p, e)"
proof (cases "findRow (board e) cl 6 = - 1")
  case True
  then show ?thesis by (simp add: evaluateMove_def simScore_def)
next
  case False
  from findRow_empty[OF False]
  have restore: "setCell (board e) (findRow (board e) cl 6) cl EMPTY = board e"
    by (rule setCell_same)
  show ?thesis using False
    by (simp add: evaluateMove_def simScore_def Let_def checkWin_hasFour setCell_setCell restore)
qed

text \<open>
  C4. On a 6 by 7 board, for every column in range and every mark, \<open>evaluateMove\<close>
  returns a score and the engine it leaves behind is the engine it was given: every
  board cell, the move history, the current player and the game-over, winner and draw
  fields are the same, although the landing cell is written and written back in
  between. So a second call on the state the first one leaves returns the same score
  and again the same engine.
\<close>

theorem evaluateMove_pure:
  assumes "wf_board (board e)" and "0 \<le> cl" and "cl < COLS"
  shows "\<exists>score. evaluateMove e cl p = Some (score, e) \<and>
     (do { (s1, e1) \<leftarrow> evaluateMove e cl p; evaluateMove e1 cl p }) = Some (score, e)"
proof -
  have once: "evaluateMove e cl p = Some (simScore (board e) cl p, e)"
    by (rule evaluateMove_simScore)
  then have "(do { (s1, e1) \<leftarrow> evaluateMove e cl p; evaluateMove e1 cl p })
      = Some (simScore (board e) cl p, e)"
    by simp
  with once show ?thesis by blast
qed

theorem evaluateMove_pure_witness:
  "let E = \<lparr>board =
        [[0, 0, 0, 0, 0, 0, 0],
         [0, 0, 0, 0, 0, 0, 0],
         [0, 0, 0, 0, 0, 0, 0],
         [1, 2, 0, 0, 0, 0, 0],
         [1, 2, 0, 0, 0, 0, 0],
         [1, 2, 0, 0, 0, 0, 1]],
      currentPlayer = PLAYER2, moveHistory = [],
      gameOver = False, winner = None, isDraw = False\<rparr>
   in wf_board (board E) \<and> (0::int) \<le> 2 \<and> (2::int) < COLS \<and>
      evaluateMove E 2 PLAYER2 = Some (300, E) \<and>
      evaluateMove E 1 PLAYER2 = Some (10000, E) \<and>
      evaluateMove E 0 PLAYER2 = Some (8000, E)"
proof -
  define E where "E = \<lparr>board =
        [[0, 0, 0, 0, 0, 0, 0],
         [0, 0, 0, 0, 0, 0, 0],
         [0, 0, 0, 0, 0, 0, 0],
         [1, 2, 0, 0, 0, 0, 0],
         [1, 2, 0, 0, 0, 0, 0],
         [1, 2, 0, 0, 0, 0, 1::nat]],
      currentPlayer = PLAYER2, moveHistory = [],
      gameOver = False, winner = None, isDraw = False\<rparr>"
  have wf: "wf_board (board E)" by (simp add: E_def wf_board_def)
  have sc: "map_option fst (evaluateMove E 2 PLAYER2) = Some 300"
    "map_option fst (evaluateMove E 1 PLAYER2) = Some 10000"
    "map_option fst (evaluateMove E 0 PLAYER2) = Some 8000"
    unfolding E_def by code_simp+
  have "evaluateMove E c PLAYER2 = Some (v, E)"
    if "map_option fst (evaluateMove E c PLAYER2) = Some v" "0 \<le> c" "c < COLS" for c v
  proof -
    from evaluateMove_pure[OF wf that(2,3), of PLAYER2] obtain score where
      "evaluateMove E c PLAYER2 = Some (score, E)" by blast
    with that(1) show ?thesis by simp
  qed
  with sc have "evaluateMove E 2 PLAYER2 = Some (300, E)" "evaluateMove E 1 PLAYER2 = Some (10000, E)"
    "evaluateMove E 0 PLAYER2 = Some (8000, E)"
    by simp_all
  with wf show ?thesis unfolding Let_def E_def by simp
qed

subsection \<open>The three passes of the decision procedure\<close>

lemma set_getValidMoves: "set (getValidMoves b) = {cl. legalColumn b cl}"
  by (auto simp: getValidMoves_def legalColumn_def)

lemma sorted_getValidMoves: "sorted (getValidMoves b)"
  unfolding getValidMoves_def by (rule sorted_wrt_filter) (rule sorted_upto)

lemma foldl_count_le:
  assumes "\<And>k d. f k d \<le> Suc k"
  shows "foldl f k xs \<le> k + length xs"
proof (induction xs arbitrary: k)
  case Nil
  show ?case by simp
next
  case (Cons d ds)
  have "foldl f (f k d) ds \<le> f k d + length ds" by (rule Cons.IH)
  also have "\<dots> \<le> Suc k + length ds" using assms[of k d] by simp
  finally show ?case by simp
qed

lemma countAdjacentPieces_le: "countAdjacentPieces b rw cl p \<le> 8"
proof -
  have "countAdjacentPieces b rw cl p \<le> 0 + length directions"
    unfolding countAdjacentPieces_def
    by (rule foldl_count_le) (auto simp: Let_def split: prod.splits)
  then show ?thesis by (simp add: directions_def)
qed

lemma simScore_win:
  assumes "findRow b cl 6 \<noteq> - 1"
  shows "simScore b cl p \<ge> 10000 \<longleftrightarrow> winningMove b cl p"
proof -
  have "(3 - \<bar>cl - 3\<bar>) * 100 + int (countAdjacentPieces b (findRow b cl 6) cl p) * 50 < 10000"
  proof -
    have "int (countAdjacentPieces b (findRow b cl 6) cl p) \<le> 8"
      using countAdjacentPieces_le[of b "findRow b cl 6" cl p] by simp
    then have "int (countAdjacentPieces b (findRow b cl 6) cl p) * 50 \<le> 400" by simp
    moreover have "(3 - \<bar>cl - 3\<bar>) * 100 \<le> 300" by simp
    ultimately show ?thesis by linarith
  qed
  then show ?thesis using assms
    by (auto simp: simScore_def winningMove_def Let_def checkWin_hasFour)
qed

lemma legal_findRow: "legalColumn b cl \<Longrightarrow> findRow b cl 6 \<noteq> - 1"
  using findRow_found[of b cl] by (auto simp: legalColumn_def)

lemma firstWinning_find:
  "firstWinning e p cols = Some (find (\<lambda>cl. simScore (board e) cl p \<ge> 10000) cols, e)"
  by (induction cols) (simp_all add: evaluateMove_simScore)

lemma find_sorted_least:
  fixes xs :: "int list"
  assumes "sorted xs" "find P xs = Some c"
  shows "c \<in> set xs \<and> P c \<and> (\<forall>x\<in>set xs. P x \<longrightarrow> c \<le> x)"
  using assms by (induction xs) (auto split: if_splits)

lemma bestLoop_first_max:
  fixes cols :: "int list"
  assumes "sorted cols" "\<forall>c\<in>set cols. bc \<le> c"
  shows "\<exists>bc'. bestLoop e p bc (simScore (board e) bc p) cols
                  = Some ((bc', simScore (board e) bc' p), e) \<and>
           bc' \<in> insert bc (set cols) \<and>
           simScore (board e) bc p \<le> simScore (board e) bc' p \<and>
           (simScore (board e) bc p = simScore (board e) bc' p \<longrightarrow> bc' = bc) \<and>
           (\<forall>c\<in>set cols. simScore (board e) c p \<le> simScore (board e) bc' p \<and>
               (simScore (board e) c p = simScore (board e) bc' p \<longrightarrow> bc' \<le> c))"
  using assms
proof (induction cols arbitrary: bc)
  case Nil
  then show ?case by simp
next
  case (Cons c cols)
  let ?sc = "\<lambda>x. simScore (board e) x p"
  have srt: "sorted cols" and hd_le: "\<forall>x\<in>set cols. c \<le> x" and bc_le: "bc \<le> c" "\<forall>x\<in>set cols. bc \<le> x"
    using Cons.prems by auto
  show ?case
  proof (cases "?sc c > ?sc bc")
    case True
    from Cons.IH[OF srt hd_le] obtain bc' where
      "bestLoop e p c (?sc c) cols = Some ((bc', ?sc bc'), e)"
      "bc' \<in> insert c (set cols)" "?sc c \<le> ?sc bc'" "?sc c = ?sc bc' \<longrightarrow> bc' = c"
      "\<forall>x\<in>set cols. ?sc x \<le> ?sc bc' \<and> (?sc x = ?sc bc' \<longrightarrow> bc' \<le> x)"
      by blast
    with True show ?thesis
      by (intro exI[of _ bc']) (auto simp: evaluateMove_simScore)
  next
    case False
    from Cons.IH[OF srt bc_le(2)] obtain bc' where
      "bestLoop e p bc (?sc bc) cols = Some ((bc', ?sc bc'), e)"
      "bc' \<in> insert bc (set cols)" "?sc bc \<le> ?sc bc'" "?sc bc = ?sc bc' \<longrightarrow> bc' = bc"
      "\<forall>x\<in>set cols. ?sc x \<le> ?sc bc' \<and> (?sc x = ?sc bc' \<longrightarrow> bc' \<le> x)"
      by blast
    with False bc_le(1) show ?thesis
      by (intro exI[of _ bc']) (auto simp: evaluateMove_simScore)
  qed
qed

lemma getBestMove_cases:
  assumes v: "getValidMoves (board e) = first # rest"
  shows "getBestMove e =
     (case find (\<lambda>cl. simScore (board e) cl PLAYER2 \<ge> 10000) (first # rest) of
        Some cl \<Rightarrow> Some (cl, e)
      | None \<Rightarrow>
         (case find (\<lambda>cl. simScore (board e) cl PLAYER1 \<ge> 10000) (first # rest) of
            Some cl \<Rightarrow> Some (cl, e)
          | None \<Rightarrow>
              do { (best, e4) \<leftarrow> bestLoop e PLAYER2 first (simScore (board e) first PLAYER2) (first # rest);
                   Some (fst best, e4) }))"
  unfolding getBestMove_def Let_def v
  by (simp add: firstWinning_find evaluateMove_simScore del: firstWinning.simps bestLoop.simps find.simps
        split: option.splits)

text \<open>
  C3. On every 6 by 7 board with a legal column, \<open>getBestMove\<close> returns a legal column and
  leaves the engine as it was. With \<open>score\<close> the score \<open>evaluateMove\<close> gives each
  column for the bot's mark (mark 2): if some legal column wins immediately for the bot,
  the result is the lowest such column; otherwise, if some legal column would win for the
  opposing mark, the result is the lowest such column (the block); otherwise the result
  has the highest score among the legal columns and is the lowest column with that
  score. In particular a board with a winning column and a blocking column yields a
  winning column.
\<close>

theorem getBestMove_priority:
  assumes "wf_board (board e)" and "\<exists>cl. legalColumn (board e) cl"
  shows "\<exists>best score. getBestMove e = Some (best, e) \<and> legalColumn (board e) best \<and>
     (\<forall>cl. evaluateMove e cl PLAYER2 = Some (score cl, e)) \<and>
     (if \<exists>cl. legalColumn (board e) cl \<and> winningMove (board e) cl PLAYER2
      then winningMove (board e) best PLAYER2 \<and>
           (\<forall>cl. legalColumn (board e) cl \<and> winningMove (board e) cl PLAYER2 \<longrightarrow> best \<le> cl)
      else if \<exists>cl. legalColumn (board e) cl \<and> winningMove (board e) cl PLAYER1
      then winningMove (board e) best PLAYER1 \<and>
           (\<forall>cl. legalColumn (board e) cl \<and> winningMove (board e) cl PLAYER1 \<longrightarrow> best \<le> cl)
      else (\<forall>cl. legalColumn (board e) cl \<longrightarrow>
              score cl \<le> score best \<and> (score cl = score best \<longrightarrow> best \<le> cl)))"
proof -
  let ?b = "board e"
  let ?valid = "getValidMoves ?b"
  let ?W2 = "\<lambda>cl. simScore ?b cl PLAYER2 \<ge> 10000"
  let ?W1 = "\<lambda>cl. simScore ?b cl PLAYER1 \<ge> 10000"
  from assms(2) have "?valid \<noteq> []"
    using set_getValidMoves[of ?b] by auto
  then obtain first rest where v: "?valid = first # rest" by (cases ?valid) auto
  have srt: "sorted (first # rest)" using sorted_getValidMoves[of ?b] by (simp add: v)
  have legal: "legalColumn ?b cl \<longleftrightarrow> cl \<in> set (first # rest)" for cl
    using set_getValidMoves[of ?b] by (simp add: v)
  have win: "legalColumn ?b cl \<Longrightarrow> (simScore ?b cl p \<ge> 10000) = winningMove ?b cl p" for cl p
    by (rule simScore_win) (rule legal_findRow)
  have ev: "\<forall>cl. evaluateMove e cl PLAYER2 = Some (simScore ?b cl PLAYER2, e)"
    by (simp add: evaluateMove_simScore)
  show ?thesis
  proof (cases "find ?W2 (first # rest)")
    case (Some c)
    from find_sorted_least[OF srt Some]
    have c: "c \<in> set (first # rest)" "?W2 c" "\<forall>x\<in>set (first # rest). ?W2 x \<longrightarrow> c \<le> x" by auto
    have g: "getBestMove e = Some (c, e)"
      by (simp only: getBestMove_cases[OF v] Some option.case)
    have "legalColumn ?b c" using c(1) legal by blast
    moreover have "winningMove ?b c PLAYER2" using c(2) win[OF \<open>legalColumn ?b c\<close>] by blast
    moreover have "\<forall>cl. legalColumn ?b cl \<and> winningMove ?b cl PLAYER2 \<longrightarrow> c \<le> cl"
      using c(3) win legal by blast
    ultimately show ?thesis using g ev
      by (intro exI[of _ c] exI[of _ "\<lambda>cl. simScore ?b cl PLAYER2"]) auto
  next
    case None
    then have no2: "\<not> (\<exists>cl. legalColumn ?b cl \<and> winningMove ?b cl PLAYER2)"
      using win legal by (auto simp: find_None_iff simp del: find.simps)
    show ?thesis
    proof (cases "find ?W1 (first # rest)")
      case (Some c)
      from find_sorted_least[OF srt Some]
      have c: "c \<in> set (first # rest)" "?W1 c" "\<forall>x\<in>set (first # rest). ?W1 x \<longrightarrow> c \<le> x" by auto
      have g: "getBestMove e = Some (c, e)"
        by (simp only: getBestMove_cases[OF v] None Some option.case)
      have "legalColumn ?b c" using c(1) legal by blast
      moreover have "winningMove ?b c PLAYER1" using c(2) win[OF \<open>legalColumn ?b c\<close>] by blast
      moreover have "\<forall>cl. legalColumn ?b cl \<and> winningMove ?b cl PLAYER1 \<longrightarrow> c \<le> cl"
        using c(3) win legal by blast
      ultimately show ?thesis using g ev no2
        by (intro exI[of _ c] exI[of _ "\<lambda>cl. simScore ?b cl PLAYER2"]) auto
    next
      case None1: None
      then have no1: "\<not> (\<exists>cl. legalColumn ?b cl \<and> winningMove ?b cl PLAYER1)"
        using win legal by (auto simp: find_None_iff simp del: find.simps)
      have "\<forall>c\<in>set (first # rest). first \<le> c" using srt by auto
      from bestLoop_first_max[OF srt this, of e PLAYER2] obtain bc where
        bl: "bestLoop e PLAYER2 first (simScore ?b first PLAYER2) (first # rest)
               = Some ((bc, simScore ?b bc PLAYER2), e)" and
        mem: "bc \<in> insert first (set (first # rest))" and
        mx: "\<forall>c\<in>set (first # rest). simScore ?b c PLAYER2 \<le> simScore ?b bc PLAYER2 \<and>
               (simScore ?b c PLAYER2 = simScore ?b bc PLAYER2 \<longrightarrow> bc \<le> c)"
        by blast
      have g: "getBestMove e = Some (bc, e)"
        by (simp only: getBestMove_cases[OF v] None None1 option.case bl) simp
      have "legalColumn ?b bc" using mem legal by auto
      moreover have "\<forall>cl. legalColumn ?b cl \<longrightarrow>
          simScore ?b cl PLAYER2 \<le> simScore ?b bc PLAYER2 \<and>
          (simScore ?b cl PLAYER2 = simScore ?b bc PLAYER2 \<longrightarrow> bc \<le> cl)"
        using mx legal by blast
      ultimately show ?thesis using g ev no2 no1
        by (intro exI[of _ bc] exI[of _ "\<lambda>cl. simScore ?b cl PLAYER2"]) auto
    qed
  qed
qed

theorem getBestMove_priority_witness:
  "let E = \<lparr>board =
        [[0, 0, 0, 0, 0, 0, 0],
         [0, 0, 0, 0, 0, 0, 0],
         [0, 0, 0, 0, 0, 0, 0],
         [1, 2, 0, 0, 0, 0, 0],
         [1, 2, 0, 0, 0, 0, 0],
         [1, 2, 0, 0, 0, 0, 1]],
      currentPlayer = PLAYER2,
      moveHistory = [\<lparr>row = 5, col = 0, player = PLAYER1\<rparr>, \<lparr>row = 5, col = 1, player = PLAYER2\<rparr>,
        \<lparr>row = 4, col = 0, player = PLAYER1\<rparr>, \<lparr>row = 4, col = 1, player = PLAYER2\<rparr>,
        \<lparr>row = 3, col = 0, player = PLAYER1\<rparr>, \<lparr>row = 3, col = 1, player = PLAYER2\<rparr>,
        \<lparr>row = 5, col = 6, player = PLAYER1\<rparr>],
      gameOver = False, winner = None, isDraw = False\<rparr>
   in wf_board (board E) \<and> (\<exists>cl. legalColumn (board E) cl) \<and>
      legalColumn (board E) 0 \<and> winningMove (board E) 0 PLAYER1 \<and>
      (\<exists>best. getBestMove E = Some (best, E) \<and> winningMove (board E) best PLAYER2 \<and> best \<noteq> 0)"
proof -
  let ?E = "\<lparr>board =
        [[0, 0, 0, 0, 0, 0, 0],
         [0, 0, 0, 0, 0, 0, 0],
         [0, 0, 0, 0, 0, 0, 0],
         [1, 2, 0, 0, 0, 0, 0],
         [1, 2, 0, 0, 0, 0, 0],
         [1, 2, 0, 0, 0, 0, 1::nat]],
      currentPlayer = PLAYER2,
      moveHistory = [\<lparr>row = 5, col = 0, player = PLAYER1\<rparr>, \<lparr>row = 5, col = 1, player = PLAYER2\<rparr>,
        \<lparr>row = 4, col = 0, player = PLAYER1\<rparr>, \<lparr>row = 4, col = 1, player = PLAYER2\<rparr>,
        \<lparr>row = 3, col = 0, player = PLAYER1\<rparr>, \<lparr>row = 3, col = 1, player = PLAYER2\<rparr>,
        \<lparr>row = 5, col = 6, player = PLAYER1\<rparr>],
      gameOver = False, winner = None, isDraw = False\<rparr>"
  have l0: "legalColumn (board ?E) 0" and l1: "legalColumn (board ?E) 1"
    by (simp_all add: legalColumn_def cellAt_def)
  have blk: "winningMove (board ?E) 0 PLAYER1" by code_simp
  have w1: "winningMove (board ?E) 1 PLAYER2" by code_simp
  have n0: "\<not> winningMove (board ?E) 0 PLAYER2" by code_simp
  have h: "\<exists>cl. legalColumn (board ?E) cl" using l1 by blast
  have wf: "wf_board (board ?E)" by (simp add: wf_board_def)
  from getBestMove_priority[OF wf h] l1 w1 obtain best where
    "getBestMove ?E = Some (best, ?E)" "winningMove (board ?E) best PLAYER2"
    by (auto split: if_splits)
  with n0 have "\<exists>best. getBestMove ?E = Some (best, ?E) \<and> winningMove (board ?E) best PLAYER2 \<and> best \<noteq> 0"
    by blast
  with wf h l0 blk show ?thesis unfolding Let_def by blast
qed

section \<open>Properties of matchmaking and of the connection lifecycle\<close>

subsection \<open>Forfeiture\<close>

lemma createSession_lookup:
  "map_of (activeSessions (snd (createSession t0 newId a ua b ub vsBot m0))) newId
     = Some (fst (createSession t0 newId a ua b ub vsBot m0))"
  by (simp add: createSession_def Let_def update_conv')

lemma createSession_fresh:
  "disconnectTime (player1 (fst (createSession t0 newId a ua b ub vsBot m0))) = None \<and>
   disconnectTime (player2 (fst (createSession t0 newId a ua b ub vsBot m0))) = None \<and>
   username (player1 (fst (createSession t0 newId a ua b ub vsBot m0))) = ua \<and>
   username (player2 (fst (createSession t0 newId a ua b ub vsBot m0))) = ub"
  by (simp add: createSession_def Let_def)

lemma forfeitGame_live:
  assumes "map_of (activeSessions m) sid = Some s" "\<not> gameOver (gameEngine s)"
  shows "forfeitGame now sid isPlayer1 m =
     (Some (s\<lparr>gameEngine := (gameEngine s)\<lparr>gameOver := True\<rparr>, endTime := Some now,
              result := Some ''forfeit'',
              sessionWinner := Some (if isPlayer1 then username (player2 s) else username (player1 s))\<rparr>),
      m\<lparr>activeSessions := AList.update sid
           (s\<lparr>gameEngine := (gameEngine s)\<lparr>gameOver := True\<rparr>, endTime := Some now,
              result := Some ''forfeit'',
              sessionWinner := Some (if isPlayer1 then username (player2 s) else username (player1 s))\<rparr>)
           (activeSessions m)\<rparr>)"
  using assms by (simp add: forfeitGame_def Let_def)

lemma forfeitGame_noop:
  assumes "map_of (activeSessions m) sid = None \<or>
           (\<exists>s. map_of (activeSessions m) sid = Some s \<and> gameOver (gameEngine s))"
  shows "forfeitGame now sid isPlayer1 m = (None, m)"
  using assms by (auto simp: forfeitGame_def)

lemma forfeitGame_again:
  "forfeitGame now2 sid isPlayer1' (snd (forfeitGame now sid isPlayer1 m))
     = (None, snd (forfeitGame now sid isPlayer1 m))"
  by (rule forfeitGame_noop)
     (auto simp: forfeitGame_def Let_def update_conv' split: option.splits)

lemma markDisconnected_timer:
  assumes "getSessionByPlayerId sock m = Some (k, s)"
  shows "timers (snd (markDisconnected now sock m)) =
           timers m @ [(nextTimer m, now + 30000,
                        Forfeit (sessionId s) (socketId (player1 s) = Some sock))]"
  using assms by (simp add: markDisconnected_def Let_def setTimeout_def)

text \<open>
  C6. \<open>forfeitGame\<close> takes effect at most once per session. On a session that exists
  and whose game is not over it sets the engine's \<open>gameOver\<close>, records the end time,
  sets the result \<open>forfeit\<close> and names as winner the participant other than the one
  its flag designates, changing nothing else; on a missing session id or a session whose
  game is over it changes nothing and returns nothing; so any call after a first one
  changes nothing, whatever its time and flag. The grace timer \<open>markDisconnected\<close>
  starts carries the session's id and the flag of the participant that disconnected, due
  30000 ms later.
\<close>

theorem forfeitGame_once:
  "(\<forall>now sid isPlayer1 m s.
      map_of (activeSessions m) sid = Some s \<and> \<not> gameOver (gameEngine s) \<longrightarrow>
      (\<exists>s'. forfeitGame now sid isPlayer1 m =
               (Some s', m\<lparr>activeSessions := AList.update sid s' (activeSessions m)\<rparr>) \<and>
            s' = s\<lparr>gameEngine := (gameEngine s)\<lparr>gameOver := True\<rparr>, endTime := Some now,
                    result := Some ''forfeit'',
                    sessionWinner := Some (if isPlayer1 then username (player2 s)
                                           else username (player1 s))\<rparr> \<and>
            gameOver (gameEngine s') \<and> endTime s' = Some now \<and> result s' = Some ''forfeit'' \<and>
            sessionWinner s' = Some (if isPlayer1 then username (player2 s)
                                     else username (player1 s)))) \<and>
   (\<forall>now sid isPlayer1 m.
      map_of (activeSessions m) sid = None \<or>
      (\<exists>s. map_of (activeSessions m) sid = Some s \<and> gameOver (gameEngine s)) \<longrightarrow>
      forfeitGame now sid isPlayer1 m = (None, m)) \<and>
   (\<forall>now sid isPlayer1 m now2 isPlayer1'.
      forfeitGame now2 sid isPlayer1' (snd (forfeitGame now sid isPlayer1 m))
        = (None, snd (forfeitGame now sid isPlayer1 m))) \<and>
   (\<forall>now sock m k s.
      getSessionByPlayerId sock m = Some (k, s) \<longrightarrow>
      timers (snd (markDisconnected now sock m)) =
        timers m @ [(nextTimer m, now + 30000,
                     Forfeit (sessionId s) (socketId (player1 s) = Some sock))])"
proof (intro conjI allI impI)
  fix now sid isPlayer1 and m :: matchmaker and s :: session
  assume "map_of (activeSessions m) sid = Some s \<and> \<not> gameOver (gameEngine s)"
  then have "forfeitGame now sid isPlayer1 m =
     (Some (s\<lparr>gameEngine := (gameEngine s)\<lparr>gameOver := True\<rparr>, endTime := Some now,
              result := Some ''forfeit'',
              sessionWinner := Some (if isPlayer1 then username (player2 s) else username (player1 s))\<rparr>),
      m\<lparr>activeSessions := AList.update sid
           (s\<lparr>gameEngine := (gameEngine s)\<lparr>gameOver := True\<rparr>, endTime := Some now,
              result := Some ''forfeit'',
              sessionWinner := Some (if isPlayer1 then username (player2 s) else username (player1 s))\<rparr>)
           (activeSessions m)\<rparr>)"
    using forfeitGame_live by blast
  then show "\<exists>s'. forfeitGame now sid isPlayer1 m =
               (Some s', m\<lparr>activeSessions := AList.update sid s' (activeSessions m)\<rparr>) \<and>
            s' = s\<lparr>gameEngine := (gameEngine s)\<lparr>gameOver := True\<rparr>, endTime := Some now,
                    result := Some ''forfeit'',
                    sessionWinner := Some (if isPlayer1 then username (player2 s)
                                           else username (player1 s))\<rparr> \<and>
            gameOver (gameEngine s') \<and> endTime s' = Some now \<and> result s' = Some ''forfeit'' \<and>
            sessionWinner s' = Some (if isPlayer1 then username (player2 s)
                                     else username (player1 s))"
    by simp
next
  fix now sid isPlayer1 and m :: matchmaker
  assume "map_of (activeSessions m) sid = None \<or>
      (\<exists>s. map_of (activeSessions m) sid = Some s \<and> gameOver (gameEngine s))"
  then show "forfeitGame now sid isPlayer1 m = (None, m)" by (rule forfeitGame_noop)
next
  fix now sid isPlayer1 m now2 isPlayer1'
  show "forfeitGame now2 sid isPlayer1' (snd (forfeitGame now sid isPlayer1 m))
        = (None, snd (forfeitGame now sid isPlayer1 m))"
    by (rule forfeitGame_again)
next
  fix now sock and m :: matchmaker and k s
  assume "getSessionByPlayerId sock m = Some (k, s)"
  then show "timers (snd (markDisconnected now sock m)) =
        timers m @ [(nextTimer m, now + 30000,
                     Forfeit (sessionId s) (socketId (player1 s) = Some sock))]"
    by (rule markDisconnected_timer)
qed

theorem forfeitGame_once_witness:
  "map_of (activeSessions
       (snd (createSession 1000000 ''g1'' ''sA'' ''alice'' ''sB'' ''bob'' False newMatchmaker))) ''g1''
     = Some (fst (createSession 1000000 ''g1'' ''sA'' ''alice'' ''sB'' ''bob'' False newMatchmaker)) \<and>
   \<not> gameOver (gameEngine (fst (createSession 1000000 ''g1'' ''sA'' ''alice'' ''sB'' ''bob'' False
       newMatchmaker))) \<and>
   (\<exists>s'. fst (forfeitGame 1030500 ''g1'' True
              (snd (createSession 1000000 ''g1'' ''sA'' ''alice'' ''sB'' ''bob'' False newMatchmaker)))
            = Some s' \<and>
         sessionWinner s' = Some ''bob'' \<and> result s' = Some ''forfeit'' \<and> endTime s' = Some 1030500)"
proof -
  let ?c = "createSession 1000000 ''g1'' ''sA'' ''alice'' ''sB'' ''bob'' False newMatchmaker"
  have a: "map_of (activeSessions (snd ?c)) ''g1'' = Some (fst ?c)" by (rule createSession_lookup)
  have b: "\<not> gameOver (gameEngine (fst ?c))"
    by (simp add: createSession_def Let_def newEngine_def)
  have u: "username (player2 (fst ?c)) = ''bob''"
    using createSession_fresh[of 1000000 "''g1''" "''sA''" "''alice''" "''sB''" "''bob''" False newMatchmaker]
    by simp
  from forfeitGame_once[THEN conjunct1, rule_format, of "snd ?c" "''g1''" "fst ?c" 1030500 True,
         OF conjI[OF a b]]
  obtain s' where
    "forfeitGame 1030500 ''g1'' True (snd ?c) =
       (Some s', (snd ?c)\<lparr>activeSessions := AList.update ''g1'' s' (activeSessions (snd ?c))\<rparr>)"
    "endTime s' = Some 1030500" "result s' = Some ''forfeit''"
    "sessionWinner s' = Some (if True then username (player2 (fst ?c)) else username (player1 (fst ?c)))"
    by (elim exE conjE)
  with u have "\<exists>s'. fst (forfeitGame 1030500 ''g1'' True (snd ?c)) = Some s' \<and>
         sessionWinner s' = Some ''bob'' \<and> result s' = Some ''forfeit'' \<and> endTime s' = Some 1030500"
    by simp
  with a b show ?thesis by blast
qed

subsection \<open>Reconnection\<close>

lemma reconnect_null_disconnectTime:
  assumes "map_of (activeSessions m) sid = Some s"
    and "username (player1 s) = user \<or> username (player2 s) = user"
    and "disconnectTime (if username (player1 s) = user then player1 s else player2 s) = None"
    and "30000 < now"
  shows "reconnect now sock user sid m = (Inl ''Reconnection window expired (30 seconds)'', m)"
  using assms by (auto simp: reconnect_def Let_def toNumber_def)

lemma reconnect_recorded_disconnect:
  assumes "map_of (activeSessions m) sid = Some s"
    and "username (player1 s) = user \<or> username (player2 s) = user"
    and "disconnectTime (if username (player1 s) = user then player1 s else player2 s) = Some t"
  shows "if now - t > 30000
         then reconnect now sock user sid m = (Inl ''Reconnection window expired (30 seconds)'', m)
         else \<exists>s' m'. reconnect now sock user sid m = (Inr s', m') \<and>
                map_of (activeSessions m') sid = Some s' \<and>
                gameEngine s' = gameEngine s \<and>
                (let pl = (if username (player1 s) = user then player1 s' else player2 s')
                 in connected pl \<and> disconnectTime pl = None \<and> socketId pl = Some sock \<and>
                    reconnectTimeout pl = None) \<and>
                (\<forall>tm. reconnectTimeout (if username (player1 s) = user then player1 s else player2 s)
                        = Some tm \<longrightarrow> map_of (timers m') tm = None)"
  using assms
  by (auto simp: reconnect_def Let_def toNumber_def update_conv' clearTimeout_def delete_conv
      split: option.splits)

lemma reconnect_errors:
  "map_of (activeSessions m) sid = None \<Longrightarrow>
     reconnect now sock user sid m = (Inl ''Session not found'', m)"
  "map_of (activeSessions m) sid = Some s \<Longrightarrow> username (player1 s) \<noteq> user \<Longrightarrow>
     username (player2 s) \<noteq> user \<Longrightarrow>
     reconnect now sock user sid m = (Inl ''Username does not match session'', m)"
  by (simp_all add: reconnect_def)

text \<open>
  C10. With the clock past 30000 ms (\<open>Date.now()\<close> counts from 1970), a reconnect for
  a participant of an existing session whose \<open>disconnectTime\<close> is \<open>null\<close> returns
  the error \<open>Reconnection window expired (30 seconds)\<close> and changes nothing: the
  elapsed time is computed as \<open>now - 0\<close>. That is the case of both participants of
  every session \<open>createSession\<close> has just made.
\<close>

theorem reconnect_never_disconnected:
  assumes "30000 < now"
  shows "(\<forall>m sid s user sock.
            map_of (activeSessions m) sid = Some s \<and>
            (username (player1 s) = user \<or> username (player2 s) = user) \<and>
            disconnectTime (if username (player1 s) = user then player1 s else player2 s) = None
            \<longrightarrow> reconnect now sock user sid m
                  = (Inl ''Reconnection window expired (30 seconds)'', m)) \<and>
         (\<forall>t0 newId a ua b ub vsBot m0 user sock.
            user = ua \<or> user = ub \<longrightarrow>
            reconnect now sock user newId (snd (createSession t0 newId a ua b ub vsBot m0))
              = (Inl ''Reconnection window expired (30 seconds)'',
                 snd (createSession t0 newId a ua b ub vsBot m0)))"
proof (intro conjI allI impI)
  fix m :: matchmaker and sid s user sock
  assume "map_of (activeSessions m) sid = Some s \<and>
            (username (player1 s) = user \<or> username (player2 s) = user) \<and>
            disconnectTime (if username (player1 s) = user then player1 s else player2 s) = None"
  then show "reconnect now sock user sid m = (Inl ''Reconnection window expired (30 seconds)'', m)"
    using assms reconnect_null_disconnectTime by blast
next
  fix t0 newId a and ua :: string and b ub vsBot m0 and user :: string and sock :: string
  assume u: "user = ua \<or> user = ub"
  let ?c = "createSession t0 newId a ua b ub vsBot m0"
  have "map_of (activeSessions (snd ?c)) newId = Some (fst ?c)" by (rule createSession_lookup)
  moreover have "username (player1 (fst ?c)) = user \<or> username (player2 (fst ?c)) = user"
    using u createSession_fresh[of t0 newId a ua b ub vsBot m0] by auto
  moreover have "disconnectTime (if username (player1 (fst ?c)) = user then player1 (fst ?c)
                                 else player2 (fst ?c)) = None"
    using createSession_fresh[of t0 newId a ua b ub vsBot m0] by auto
  ultimately show "reconnect now sock user newId (snd ?c)
      = (Inl ''Reconnection window expired (30 seconds)'', snd ?c)"
    using assms by (rule reconnect_null_disconnectTime)
qed

theorem reconnect_never_disconnected_witness:
  "(30000::int) < 1000500 \<and>
   reconnect 1000500 ''sC'' ''alice'' ''g1''
       (snd (createSession 1000000 ''g1'' ''sA'' ''alice'' ''sB'' ''bob'' False newMatchmaker))
     = (Inl ''Reconnection window expired (30 seconds)'',
        snd (createSession 1000000 ''g1'' ''sA'' ''alice'' ''sB'' ''bob'' False newMatchmaker))"
proof -
  have h: "(30000::int) < 1000500" by simp
  from reconnect_never_disconnected[OF h]
  have "reconnect 1000500 ''sC'' ''alice'' ''g1''
       (snd (createSession 1000000 ''g1'' ''sA'' ''alice'' ''sB'' ''bob'' False newMatchmaker))
     = (Inl ''Reconnection window expired (30 seconds)'',
        snd (createSession 1000000 ''g1'' ''sA'' ''alice'' ''sB'' ''bob'' False newMatchmaker))"
    by blast
  with h show ?thesis by (rule conjI)
qed

text \<open>
  C5. The reconnect contract orders its outcomes: session not found, identity mismatch,
  grace window expired, and otherwise success. For a participant with a recorded
  disconnect time this is what \<open>reconnect\<close> does (\<open>reconnect_errors\<close>,
  \<open>reconnect_recorded_disconnect\<close>). For a participant that was never marked
  disconnected no grace deadline exists, and the call is still refused as expired: one
  millisecond after the session of alice and bob is made, a reconnect of alice on the
  socket the session was made with returns \<open>Reconnection window expired (30 seconds)\<close>.
\<close>

theorem reconnect_rejects_connected_participant:
  "map_of (activeSessions
       (snd (createSession 1000000 ''g1'' ''sA'' ''alice'' ''sB'' ''bob'' False newMatchmaker))) ''g1''
     = Some (fst (createSession 1000000 ''g1'' ''sA'' ''alice'' ''sB'' ''bob'' False newMatchmaker)) \<and>
   username (player1 (fst (createSession 1000000 ''g1'' ''sA'' ''alice'' ''sB'' ''bob'' False
       newMatchmaker))) = ''alice'' \<and>
   disconnectTime (player1 (fst (createSession 1000000 ''g1'' ''sA'' ''alice'' ''sB'' ''bob'' False
       newMatchmaker))) = None \<and>
   reconnect 1000001 ''sA'' ''alice'' ''g1''
       (snd (createSession 1000000 ''g1'' ''sA'' ''alice'' ''sB'' ''bob'' False newMatchmaker))
     = (Inl ''Reconnection window expired (30 seconds)'',
        snd (createSession 1000000 ''g1'' ''sA'' ''alice'' ''sB'' ''bob'' False newMatchmaker))"
proof -
  let ?c = "createSession 1000000 ''g1'' ''sA'' ''alice'' ''sB'' ''bob'' False newMatchmaker"
  have a: "map_of (activeSessions (snd ?c)) ''g1'' = Some (fst ?c)" by (rule createSession_lookup)
  have b: "username (player1 (fst ?c)) = ''alice''" "disconnectTime (player1 (fst ?c)) = None"
    using createSession_fresh[of 1000000 "''g1''" "''sA''" "''alice''" "''sB''" "''bob''" False newMatchmaker]
    by simp_all
  have "reconnect 1000001 ''sA'' ''alice'' ''g1'' (snd ?c)
      = (Inl ''Reconnection window expired (30 seconds)'', snd ?c)"
    by (rule reconnect_null_disconnectTime[OF a]) (simp_all add: b)
  with a b show ?thesis by simp
qed

subsection \<open>Pairing against the wait timer\<close>





















subsection \<open>Duplicate identities\<close>

lemma joinQueue_rejects:
  "map_of (waitingPlayers m) sock \<noteq> None \<Longrightarrow>
     joinQueue now newId sock user mode m = (JoinError ''Already in queue'', m)"
  "map_of (waitingPlayers m) sock = None \<Longrightarrow>
   \<exists>(k, s) \<in> set (activeSessions m). username (player1 s) = user \<or> username (player2 s) = user \<Longrightarrow>
     joinQueue now newId sock user mode m = (JoinError ''Username already in game'', m)"
  by (auto simp: joinQueue_def list_ex_iff)

text \<open>
  C8. \<open>joinQueue\<close> is to refuse an identity that already has a session or a queue
  entry. It refuses a socket id that is in the queue and a username that is in a session
  (\<open>joinQueue_rejects\<close>), and does not compare the username with the queue. With
  alice waiting in human mode on socket sA, a second join of alice on socket sB is
  accepted: in human mode the two entries are paired in a session whose two participants
  are both alice; in bot mode alice gets a bot session while the first entry stays
  queued, and when its wait timer fires alice has two sessions.
\<close>

theorem joinQueue_same_username_twice:
  "(\<exists>m m'.
      joinQueue 0 ''g0'' ''sA'' ''alice'' ''human'' newMatchmaker = (JoinQueued, m) \<and>
      map (\<lambda>(k, w). (k, w_username w)) (waitingPlayers m) = [(''sA'', ''alice'')] \<and>
      joinQueue 5000 ''g1'' ''sB'' ''alice'' ''human'' m = (JoinedPair ''g1'' ''alice'', m') \<and>
      map (\<lambda>(k, s). (k, username (player1 s), username (player2 s))) (activeSessions m')
        = [(''g1'', ''alice'', ''alice'')]) \<and>
   (\<exists>m m' m''.
      joinQueue 0 ''g0'' ''sA'' ''alice'' ''human'' newMatchmaker = (JoinQueued, m) \<and>
      joinQueue 5000 ''g1'' ''sB'' ''alice'' ''bot'' m = (JoinedBot ''g1'', m') \<and>
      map (\<lambda>(k, w). (k, w_username w)) (waitingPlayers m') = [(''sA'', ''alice'')] \<and>
      map (\<lambda>(k, s). (k, username (player1 s))) (activeSessions m') = [(''g1'', ''alice'')] \<and>
      fireTimer 10000 ''g2'' 0 m' = m'' \<and>
      map (\<lambda>(k, s). (k, username (player1 s), isBot (player1 s))) (activeSessions m'')
        = [(''g1'', ''alice'', False), (''g2'', ''alice'', False)])"
proof -
  define m where "m = \<lparr>waitingPlayers =
       [(''sA'', \<lparr>w_socketId = ''sA'', w_username = ''alice'', gameMode = ''human'', timestamp = 0\<rparr>)],
     activeSessions = [], matchmakingTimeouts = [(''sA'', 0)],
     timers = [(0, 10000, SpawnBot ''sA'')], nextTimer = 1\<rparr>"
  have j0: "joinQueue 0 ''g0'' ''sA'' ''alice'' ''human'' newMatchmaker = (JoinQueued, m)"
    unfolding m_def by code_simp
  have w0: "map (\<lambda>(k, w). (k, w_username w)) (waitingPlayers m) = [(''sA'', ''alice'')]"
    by (simp add: m_def)
  have j1: "map (\<lambda>(k, s). (k, username (player1 s), username (player2 s)))
              (activeSessions (snd (joinQueue 5000 ''g1'' ''sB'' ''alice'' ''human'' m)))
            = [(''g1'', ''alice'', ''alice'')] \<and>
            fst (joinQueue 5000 ''g1'' ''sB'' ''alice'' ''human'' m) = JoinedPair ''g1'' ''alice''"
    unfolding m_def by code_simp
  have j2: "fst (joinQueue 5000 ''g1'' ''sB'' ''alice'' ''bot'' m) = JoinedBot ''g1'' \<and>
      map (\<lambda>(k, w). (k, w_username w))
        (waitingPlayers (snd (joinQueue 5000 ''g1'' ''sB'' ''alice'' ''bot'' m))) = [(''sA'', ''alice'')] \<and>
      map (\<lambda>(k, s). (k, username (player1 s)))
        (activeSessions (snd (joinQueue 5000 ''g1'' ''sB'' ''alice'' ''bot'' m))) = [(''g1'', ''alice'')] \<and>
      map (\<lambda>(k, s). (k, username (player1 s), isBot (player1 s)))
        (activeSessions (fireTimer 10000 ''g2'' 0 (snd (joinQueue 5000 ''g1'' ''sB'' ''alice'' ''bot'' m))))
        = [(''g1'', ''alice'', False), (''g2'', ''alice'', False)]"
    unfolding m_def by code_simp
  have first: "\<exists>m m'.
      joinQueue 0 ''g0'' ''sA'' ''alice'' ''human'' newMatchmaker = (JoinQueued, m) \<and>
      map (\<lambda>(k, w). (k, w_username w)) (waitingPlayers m) = [(''sA'', ''alice'')] \<and>
      joinQueue 5000 ''g1'' ''sB'' ''alice'' ''human'' m = (JoinedPair ''g1'' ''alice'', m') \<and>
      map (\<lambda>(k, s). (k, username (player1 s), username (player2 s))) (activeSessions m')
        = [(''g1'', ''alice'', ''alice'')]"
    using j0 w0 j1
    by (intro exI[of _ m] exI[of _ "snd (joinQueue 5000 ''g1'' ''sB'' ''alice'' ''human'' m)"])
       (simp add: prod_eq_iff)
  have second: "\<exists>m m' m''.
      joinQueue 0 ''g0'' ''sA'' ''alice'' ''human'' newMatchmaker = (JoinQueued, m) \<and>
      joinQueue 5000 ''g1'' ''sB'' ''alice'' ''bot'' m = (JoinedBot ''g1'', m') \<and>
      map (\<lambda>(k, w). (k, w_username w)) (waitingPlayers m') = [(''sA'', ''alice'')] \<and>
      map (\<lambda>(k, s). (k, username (player1 s))) (activeSessions m') = [(''g1'', ''alice'')] \<and>
      fireTimer 10000 ''g2'' 0 m' = m'' \<and>
      map (\<lambda>(k, s). (k, username (player1 s), isBot (player1 s))) (activeSessions m'')
        = [(''g1'', ''alice'', False), (''g2'', ''alice'', False)]"
    using j0 j2
    by (intro exI[of _ m] exI[of _ "snd (joinQueue 5000 ''g1'' ''sB'' ''alice'' ''bot'' m)"]
          exI[of _ "fireTimer 10000 ''g2'' 0 (snd (joinQueue 5000 ''g1'' ''sB'' ''alice'' ''bot'' m))"])
       (simp add: prod_eq_iff)
  from first second show ?thesis by (rule conjI)
qed

section \<open>Moves after the end of the game\<close>

lemma dropPiece_accepts:
  assumes rng: "0 \<le> c" "c < COLS"
    and top: "cellAt (board e) 0 c = Some EMPTY"
  shows "\<exists>res e'. dropPiece e c = Some (Inr res, e') \<and>
           res_row res = findRow (board e) c 6 \<and> res_col res = c \<and>
           board e' = setCell (board e) (findRow (board e) c 6) c (currentPlayer e) \<and>
           moveHistory e' = moveHistory e @
              [\<lparr>row = findRow (board e) c 6, col = c, player = currentPlayer e\<rparr>] \<and>
           (gameOver e \<longrightarrow> gameOver e') \<and>
           (hasFour (board e') (findRow (board e) c 6) c (currentPlayer e)
              \<longrightarrow> winner e' = Some (currentPlayer e) \<and> res_winner res = Some (currentPlayer e))"
  using rng top by (auto simp: dropPiece_def Let_def checkWin_hasFour)

lemma dropPiece_changes_board:
  assumes wf: "wf_board (board e)" and rng: "0 \<le> c" "c < COLS"
    and top: "cellAt (board e) 0 c = Some EMPTY" and cp: "currentPlayer e \<noteq> EMPTY"
  shows "setCell (board e) (findRow (board e) c 6) c (currentPlayer e) \<noteq> board e"
proof
  let ?r = "findRow (board e) c 6"
  assume eq: "setCell (board e) ?r c (currentPlayer e) = board e"
  from findRow_found[OF top] have fr: "0 \<le> ?r" "?r < ROWS" "cellAt (board e) ?r c = Some EMPTY"
    by simp_all
  have "cellAt (setCell (board e) ?r c (currentPlayer e)) ?r c = Some (currentPlayer e)"
    using cellAt_setCell[OF wf fr(1,2) rng] by simp
  with eq fr(3) cp show False by simp
qed

text \<open>
  C9. Neither \<open>dropPiece\<close> nor the \<open>onMakeMove\<close> handler looks at \<open>gameOver\<close>.
  On an engine whose game is over, a move into a column in range with an empty top cell
  succeeds, changes the board, appends its record to the move history and, when it makes
  four in a line, sets the winner to the player who moved. The handler accepts the move
  of the socket whose turn it is and stores the engine \<open>dropPiece\<close> leaves. In the
  game 0,1,0,1,0,1,0,6,1 the seventh move wins for mark 1, the eighth is accepted all the
  same, and the ninth makes mark 2 the winner.
\<close>

theorem moves_accepted_after_game_over:
  "(\<forall>e c. wf_board (board e) \<and> gameOver e \<and> currentPlayer e \<noteq> EMPTY \<and>
          0 \<le> c \<and> c < COLS \<and> cellAt (board e) 0 c = Some EMPTY \<longrightarrow>
      (\<exists>res e'. dropPiece e c = Some (Inr res, e') \<and> board e' \<noteq> board e \<and>
          moveHistory e' = moveHistory e @ [\<lparr>row = res_row res, col = c, player = currentPlayer e\<rparr>] \<and>
          (checkWin (board e') (res_row res) c (currentPlayer e) = Some True \<longrightarrow>
             winner e' = Some (currentPlayer e)))) \<and>
   (\<forall>m sid s sock c. map_of (activeSessions m) sid = Some s \<and>
          wf_board (board (gameEngine s)) \<and> gameOver (gameEngine s) \<and>
          (if socketId (player1 s) = Some sock then currentPlayer (gameEngine s) = PLAYER1
           else socketId (player2 s) = Some sock \<and> currentPlayer (gameEngine s) = PLAYER2) \<and>
          0 \<le> c \<and> c < COLS \<and> cellAt (board (gameEngine s)) 0 c = Some EMPTY \<longrightarrow>
      (\<exists>res e'. dropPiece (gameEngine s) c = Some (Inr res, e') \<and>
          onMakeMove sock sid c m =
            Some (Inr res, m\<lparr>activeSessions :=
                     AList.update sid (s\<lparr>gameEngine := e'\<rparr>) (activeSessions m)\<rparr>))) \<and>
   (\<exists>results e. dropAll newEngine [0, 1, 0, 1, 0, 1, 0, 6, 1] = Some (results, e) \<and>
      map isl results = [False, False, False, False, False, False, False, False, False] \<and>
      map (\<lambda>res. res_gameOver (projr res)) results =
        [False, False, False, False, False, False, True, False, True] \<and>
      map (\<lambda>res. res_winner (projr res)) results =
        [None, None, None, None, None, None, Some PLAYER1, None, Some PLAYER2] \<and>
      length (moveHistory e) = 9 \<and> winner e = Some PLAYER2)"
proof (intro conjI allI impI)
  fix e :: engine and c
  assume h: "wf_board (board e) \<and> gameOver e \<and> currentPlayer e \<noteq> EMPTY \<and>
          0 \<le> c \<and> c < COLS \<and> cellAt (board e) 0 c = Some EMPTY"
  then have wf: "wf_board (board e)" and rng: "0 \<le> c" "c < COLS"
    and top: "cellAt (board e) 0 c = Some EMPTY" and cp: "currentPlayer e \<noteq> EMPTY"
    by simp_all
  from dropPiece_accepts[OF rng top] obtain res e' where
    d: "dropPiece e c = Some (Inr res, e')" and
    r: "res_row res = findRow (board e) c 6" and
    b: "board e' = setCell (board e) (findRow (board e) c 6) c (currentPlayer e)" and
    mh: "moveHistory e' = moveHistory e @
              [\<lparr>row = findRow (board e) c 6, col = c, player = currentPlayer e\<rparr>]" and
    w: "hasFour (board e') (findRow (board e) c 6) c (currentPlayer e)
              \<longrightarrow> winner e' = Some (currentPlayer e) \<and> res_winner res = Some (currentPlayer e)"
    by blast
  have "board e' \<noteq> board e"
    unfolding b using wf rng top cp by (rule dropPiece_changes_board)
  then show "\<exists>res e'. dropPiece e c = Some (Inr res, e') \<and> board e' \<noteq> board e \<and>
          moveHistory e' = moveHistory e @ [\<lparr>row = res_row res, col = c, player = currentPlayer e\<rparr>] \<and>
          (checkWin (board e') (res_row res) c (currentPlayer e) = Some True \<longrightarrow>
             winner e' = Some (currentPlayer e))"
    using d r mh w by (auto simp: checkWin_hasFour)
next
  fix m :: matchmaker and sid and s :: session and sock :: string and c
  assume h: "map_of (activeSessions m) sid = Some s \<and>
          wf_board (board (gameEngine s)) \<and> gameOver (gameEngine s) \<and>
          (if socketId (player1 s) = Some sock then currentPlayer (gameEngine s) = PLAYER1
           else socketId (player2 s) = Some sock \<and> currentPlayer (gameEngine s) = PLAYER2) \<and>
          0 \<le> c \<and> c < COLS \<and> cellAt (board (gameEngine s)) 0 c = Some EMPTY"
  then have wf: "wf_board (board (gameEngine s))" and rng: "0 \<le> c" "c < COLS"
    and top: "cellAt (board (gameEngine s)) 0 c = Some EMPTY"
    by simp_all
  from dropPiece_accepts[OF rng top] obtain res e' where
    d: "dropPiece (gameEngine s) c = Some (Inr res, e')" by blast
  have "onMakeMove sock sid c m =
            Some (Inr res, m\<lparr>activeSessions :=
                     AList.update sid (s\<lparr>gameEngine := e'\<rparr>) (activeSessions m)\<rparr>)"
    using h d by (auto simp: onMakeMove_def Let_def split: if_splits)
  with d show "\<exists>res e'. dropPiece (gameEngine s) c = Some (Inr res, e') \<and>
          onMakeMove sock sid c m =
            Some (Inr res, m\<lparr>activeSessions :=
                     AList.update sid (s\<lparr>gameEngine := e'\<rparr>) (activeSessions m)\<rparr>)"
    by blast
next
  have play: "dropAll newEngine [0, 1, 0, 1, 0, 1, 0, 6, 1] = Some (
    [Inr \<lparr>res_row = 5, res_col = 0, res_gameOver = False, res_winner = None, res_isDraw = False\<rparr>,
     Inr \<lparr>res_row = 5, res_col = 1, res_gameOver = False, res_winner = None, res_isDraw = False\<rparr>,
     Inr \<lparr>res_row = 4, res_col = 0, res_gameOver = False, res_winner = None, res_isDraw = False\<rparr>,
     Inr \<lparr>res_row = 4, res_col = 1, res_gameOver = False, res_winner = None, res_isDraw = False\<rparr>,
     Inr \<lparr>res_row = 3, res_col = 0, res_gameOver = False, res_winner = None, res_isDraw = False\<rparr>,
     Inr \<lparr>res_row = 3, res_col = 1, res_gameOver = False, res_winner = None, res_isDraw = False\<rparr>,
     Inr \<lparr>res_row = 2, res_col = 0, res_gameOver = True, res_winner = Some PLAYER1,
          res_isDraw = False\<rparr>,
     Inr \<lparr>res_row = 5, res_col = 6, res_gameOver = False, res_winner = None, res_isDraw = False\<rparr>,
     Inr \<lparr>res_row = 2, res_col = 1, res_gameOver = True, res_winner = Some PLAYER2,
          res_isDraw = False\<rparr>],
    \<lparr>board =
        [[0, 0, 0, 0, 0, 0, 0],
         [0, 0, 0, 0, 0, 0, 0],
         [1, 2, 0, 0, 0, 0, 0],
         [1, 2, 0, 0, 0, 0, 0],
         [1, 2, 0, 0, 0, 0, 0],
         [1, 2, 0, 0, 0, 0, 1]],
     currentPlayer = PLAYER2,
     moveHistory = [\<lparr>row = 5, col = 0, player = PLAYER1\<rparr>, \<lparr>row = 5, col = 1, player = PLAYER2\<rparr>,
       \<lparr>row = 4, col = 0, player = PLAYER1\<rparr>, \<lparr>row = 4, col = 1, player = PLAYER2\<rparr>,
       \<lparr>row = 3, col = 0, player = PLAYER1\<rparr>, \<lparr>row = 3, col = 1, player = PLAYER2\<rparr>,
       \<lparr>row = 2, col = 0, player = PLAYER1\<rparr>, \<lparr>row = 5, col = 6, player = PLAYER1\<rparr>,
       \<lparr>row = 2, col = 1, player = PLAYER2\<rparr>],
     gameOver = True, winner = Some PLAYER2, isDraw = False\<rparr>)"
    by code_simp
  show "\<exists>results e. dropAll newEngine [0, 1, 0, 1, 0, 1, 0, 6, 1] = Some (results, e) \<and>
      map isl results = [False, False, False, False, False, False, False, False, False] \<and>
      map (\<lambda>res. res_gameOver (projr res)) results =
        [False, False, False, False, False, False, True, False, True] \<and>
      map (\<lambda>res. res_winner (projr res)) results =
        [None, None, None, None, None, None, Some PLAYER1, None, Some PLAYER2] \<and>
      length (moveHistory e) = 9 \<and> winner e = Some PLAYER2"
    unfolding play by simp
qed

theorem moves_accepted_after_game_over_witness:
  "let E = \<lparr>board =
        [[0, 0, 0, 0, 0, 0, 0],
         [0, 0, 0, 0, 0, 0, 0],
         [1, 0, 0, 0, 0, 0, 0],
         [1, 2, 0, 0, 0, 0, 0],
         [1, 2, 0, 0, 0, 0, 0],
         [1, 2, 0, 0, 0, 0, 0]],
      currentPlayer = PLAYER1,
      moveHistory = [\<lparr>row = 5, col = 0, player = PLAYER1\<rparr>, \<lparr>row = 5, col = 1, player = PLAYER2\<rparr>,
        \<lparr>row = 4, col = 0, player = PLAYER1\<rparr>, \<lparr>row = 4, col = 1, player = PLAYER2\<rparr>,
        \<lparr>row = 3, col = 0, player = PLAYER1\<rparr>, \<lparr>row = 3, col = 1, player = PLAYER2\<rparr>,
        \<lparr>row = 2, col = 0, player = PLAYER1\<rparr>],
      gameOver = True, winner = Some PLAYER1, isDraw = False\<rparr>
   in wf_board (board E) \<and> gameOver E \<and> currentPlayer E \<noteq> EMPTY \<and>
      (0::int) \<le> 6 \<and> (6::int) < COLS \<and> cellAt (board E) 0 6 = Some EMPTY \<and>
      (\<exists>res e'. dropPiece E 6 = Some (Inr res, e') \<and> board e' \<noteq> board E \<and>
         length (moveHistory e') = 8)"
proof -
  define E where "E = \<lparr>board =
        [[0, 0, 0, 0, 0, 0, 0],
         [0, 0, 0, 0, 0, 0, 0],
         [1, 0, 0, 0, 0, 0, 0],
         [1, 2, 0, 0, 0, 0, 0],
         [1, 2, 0, 0, 0, 0, 0],
         [1, 2, 0, 0, 0, 0, 0::nat]],
      currentPlayer = PLAYER1,
      moveHistory = [\<lparr>row = 5, col = 0, player = PLAYER1\<rparr>, \<lparr>row = 5, col = 1, player = PLAYER2\<rparr>,
        \<lparr>row = 4, col = 0, player = PLAYER1\<rparr>, \<lparr>row = 4, col = 1, player = PLAYER2\<rparr>,
        \<lparr>row = 3, col = 0, player = PLAYER1\<rparr>, \<lparr>row = 3, col = 1, player = PLAYER2\<rparr>,
        \<lparr>row = 2, col = 0, player = PLAYER1\<rparr>],
      gameOver = True, winner = Some PLAYER1, isDraw = False\<rparr>"
  have h: "wf_board (board E) \<and> gameOver E \<and> currentPlayer E \<noteq> EMPTY \<and>
      (0::int) \<le> 6 \<and> (6::int) < COLS \<and> cellAt (board E) 0 6 = Some EMPTY"
    by (simp add: E_def wf_board_def cellAt_def)
  have len: "length (moveHistory E) = 7" by (simp add: E_def)
  from moves_accepted_after_game_over[THEN conjunct1, rule_format, OF h]
  obtain res e' where
    "dropPiece E 6 = Some (Inr res, e')" "board e' \<noteq> board E"
    "moveHistory e' = moveHistory E @ [\<lparr>row = res_row res, col = 6, player = currentPlayer E\<rparr>]"
    by (elim exE conjE)
  with len have "\<exists>res e'. dropPiece E 6 = Some (Inr res, e') \<and> board e' \<noteq> board E \<and>
         length (moveHistory e') = 8"
    by auto
  with h show ?thesis unfolding Let_def E_def by blast
qed

end
